theory Spec2Isabelle
  imports Main "HOL-Library.AList"
begin

chapter \<open>The model\<close>

section \<open>Python values shared by both modules\<close>

text \<open>
  Exceptions of the source are values: every function that can raise returns
  \<open>error + 'a\<close>, with \<open>Inl\<close> carrying the exception.
\<close>

datatype error =
    KeyError
  | ValueError
  | IndexError
  | TypeError
  | OverflowError
  | HTTPError int
  | ConnectionError

subsection \<open>Strings\<close>

text \<open>
  Strings are lists of characters, one \<open>char\<close> per code point; \<open>len\<close> is \<open>length\<close>. A
  \<open>char\<close> holds a code point from 0 to 255, so the model covers Latin-1 text.
\<close>

definition digit_char :: "nat \<Rightarrow> char" where
  "digit_char d = ''0123456789'' ! d"

fun str_nat :: "nat \<Rightarrow> string" where
  "str_nat n = (if n < 10 then [digit_char n] else str_nat (n div 10) @ [digit_char (n mod 10)])"

declare str_nat.simps [simp del]

definition str_int :: "int \<Rightarrow> string" where
  \<comment> \<open>\<open>str(i)\<close>, also what \<open>f"{i}"\<close> inserts for an int\<close>
  "str_int i = (if i < 0 then CHR ''-'' # str_nat (nat (- i)) else str_nat (nat i))"

definition format_plus :: "int \<Rightarrow> string" where
  \<comment> \<open>\<open>f"{i:+}"\<close>: the sign is always written\<close>
  "format_plus i = (if i < 0 then CHR ''-'' # str_nat (nat (- i)) else CHR ''+'' # str_nat (nat i))"

fun join_str :: "string \<Rightarrow> string list \<Rightarrow> string" where
  \<comment> \<open>\<open>sep.join(xs)\<close>\<close>
  "join_str sep [] = []"
| "join_str sep [x] = x"
| "join_str sep (x # y # ys) = x @ sep @ join_str sep (y # ys)"

definition newline :: string where
  "newline = [CHR 0x0A]"

definition ascii_lowercase :: string where
  "ascii_lowercase = ''abcdefghijklmnopqrstuvwxyz''"

definition ascii_uppercase :: string where
  "ascii_uppercase = ''ABCDEFGHIJKLMNOPQRSTUVWXYZ''"

definition latin1_lowercase :: string where
  \<comment> \<open>U+00E0 to U+00FE without the division sign U+00F7\<close>
  "latin1_lowercase =
     [CHR 0xE0, CHR 0xE1, CHR 0xE2, CHR 0xE3, CHR 0xE4, CHR 0xE5, CHR 0xE6, CHR 0xE7,
      CHR 0xE8, CHR 0xE9, CHR 0xEA, CHR 0xEB, CHR 0xEC, CHR 0xED, CHR 0xEE, CHR 0xEF,
      CHR 0xF0, CHR 0xF1, CHR 0xF2, CHR 0xF3, CHR 0xF4, CHR 0xF5, CHR 0xF6, CHR 0xF8,
      CHR 0xF9, CHR 0xFA, CHR 0xFB, CHR 0xFC, CHR 0xFD, CHR 0xFE]"

definition latin1_uppercase :: string where
  \<comment> \<open>U+00C0 to U+00DE without the multiplication sign U+00D7\<close>
  "latin1_uppercase =
     [CHR 0xC0, CHR 0xC1, CHR 0xC2, CHR 0xC3, CHR 0xC4, CHR 0xC5, CHR 0xC6, CHR 0xC7,
      CHR 0xC8, CHR 0xC9, CHR 0xCA, CHR 0xCB, CHR 0xCC, CHR 0xCD, CHR 0xCE, CHR 0xCF,
      CHR 0xD0, CHR 0xD1, CHR 0xD2, CHR 0xD3, CHR 0xD4, CHR 0xD5, CHR 0xD6, CHR 0xD8,
      CHR 0xD9, CHR 0xDA, CHR 0xDB, CHR 0xDC, CHR 0xDD, CHR 0xDE]"

text \<open>
  \<open>c.upper()\<close> for one character: a string, because the upper case of U+00DF is \<open>"SS"\<close>.
  The upper case of U+00B5 is U+039C and that of U+00FF is U+0178, which no \<open>char\<close>
  holds: the model leaves these two characters as they are, so its guess differs from
  the code's for a team name in which one of them starts a word.
\<close>

definition upper_char :: "char \<Rightarrow> string" where
  "upper_char c =
     (if c = CHR 0xDF then ''SS''
      else case map_of (zip (ascii_lowercase @ latin1_lowercase) (ascii_uppercase @ latin1_uppercase)) c of
             Some u \<Rightarrow> [u]
           | None \<Rightarrow> [c])"

definition lower_char :: "char \<Rightarrow> char" where
  \<comment> \<open>\<open>c.lower()\<close> for one character\<close>
  "lower_char c =
     (case map_of (zip (ascii_uppercase @ latin1_uppercase) (ascii_lowercase @ latin1_lowercase)) c of
        Some l \<Rightarrow> l
      | None \<Rightarrow> c)"

definition lower :: "string \<Rightarrow> string" where
  \<comment> \<open>\<open>s.lower()\<close>\<close>
  "lower s = map lower_char s"

section \<open>embed\_generator.py: the standings table\<close>

text \<open>
  A ranking item as the platform returns it, restricted to the fields the source reads.
  \<open>rank\<close> and \<open>short_name\<close> are the two fields the source tests against \<open>None\<close>.
\<close>

record custom_fields =
  emote :: "string option"
  short_name :: "string option"

record participant =
  name :: string
  custom_fields :: custom_fields

record properties =
  wins :: int
  losses :: int
  score_difference :: int

record ranking_item =
  rank :: "int option"
  position :: int
  participant :: participant
  properties :: properties

type_synonym str_dict = "string \<rightharpoonup> string"

definition get_rank_info :: "ranking_item \<Rightarrow> str_dict" where
  "get_rank_info team =
     (let rank = (case rank team of None \<Rightarrow> position team | Some r \<Rightarrow> r);
          name = (case short_name (custom_fields (participant team)) of
                    None \<Rightarrow> name (participant team) | Some s \<Rightarrow> s);
          wins = wins (properties team);
          losses = losses (properties team);
          diff = score_difference (properties team)
      in [''rank'' \<mapsto> CHR ''#'' # str_int rank,
          ''name'' \<mapsto> name,
          ''win_loss'' \<mapsto> str_int wins @ ''-'' @ str_int losses,
          ''diff'' \<mapsto> format_plus diff])"

definition getitem :: "str_dict \<Rightarrow> string \<Rightarrow> error + string" where
  \<comment> \<open>\<open>entry[key]\<close>\<close>
  "getitem entry key = (case entry key of None \<Rightarrow> Inl KeyError | Some v \<Rightarrow> Inr v)"

fun field_lengths :: "string \<Rightarrow> str_dict list \<Rightarrow> error + nat list" where
  \<comment> \<open>\<open>[len(entry[key]) for entry in dict_list]\<close>\<close>
  "field_lengths key [] = Inr []"
| "field_lengths key (entry # rest) =
     (case getitem entry key of
        Inl e \<Rightarrow> Inl e
      | Inr v \<Rightarrow> (case field_lengths key rest of
                    Inl e \<Rightarrow> Inl e
                  | Inr ls \<Rightarrow> Inr (length v # ls)))"

definition py_max :: "nat list \<Rightarrow> error + nat" where
  \<comment> \<open>\<open>max(xs)\<close>: raises ValueError on the empty list\<close>
  "py_max xs = (case xs of [] \<Rightarrow> Inl ValueError | x # rest \<Rightarrow> Inr (fold max rest x))"

fun gather_paddings :: "string list \<Rightarrow> str_dict list \<Rightarrow> (string \<rightharpoonup> nat) \<Rightarrow> error + (string \<rightharpoonup> nat)" where
  \<comment> \<open>the first loop of \<open>__pad_dictionary\<close>\<close>
  "gather_paddings [] dict_list paddings = Inr paddings"
| "gather_paddings (key # keys) dict_list paddings =
     (case field_lengths key dict_list of
        Inl e \<Rightarrow> Inl e
      | Inr ls \<Rightarrow> (case py_max ls of
                    Inl e \<Rightarrow> Inl e
                  | Inr m \<Rightarrow> gather_paddings keys dict_list (paddings(key \<mapsto> m))))"

fun pad_entry :: "(string \<rightharpoonup> nat) \<Rightarrow> string list \<Rightarrow> str_dict \<Rightarrow> error + str_dict" where
  \<comment> \<open>the inner loop of the second loop: one entry, every key\<close>
  "pad_entry paddings [] entry = Inr entry"
| "pad_entry paddings (key # keys) entry =
     (case getitem entry key of
        Inl e \<Rightarrow> Inl e
      | Inr v \<Rightarrow>
          (case paddings key of
             None \<Rightarrow> Inl KeyError
           | Some target_size \<Rightarrow>
               (let actual_size = length v;
                    padded_content = v @ replicate (target_size - actual_size) CHR '' ''
                in pad_entry paddings keys (entry(key \<mapsto> padded_content)))))"

fun pad_entries :: "(string \<rightharpoonup> nat) \<Rightarrow> string list \<Rightarrow> str_dict list \<Rightarrow> error + str_dict list" where
  "pad_entries paddings keys [] = Inr []"
| "pad_entries paddings keys (entry # rest) =
     (case pad_entry paddings keys entry of
        Inl e \<Rightarrow> Inl e
      | Inr entry' \<Rightarrow> (case pad_entries paddings keys rest of
                        Inl e \<Rightarrow> Inl e
                      | Inr rest' \<Rightarrow> Inr (entry' # rest')))"

definition pad_dictionary :: "string list \<Rightarrow> str_dict list \<Rightarrow> error + str_dict list" where
  \<comment> \<open>the source pads the dictionaries in place; the model returns the padded list\<close>
  "pad_dictionary keys dict_list =
     (case gather_paddings keys dict_list Map.empty of
        Inl e \<Rightarrow> Inl e
      | Inr paddings \<Rightarrow> pad_entries paddings keys dict_list)"

fun team_values :: "str_dict \<Rightarrow> string list \<Rightarrow> error + string list" where
  \<comment> \<open>\<open>[team[key] for key in keys]\<close>\<close>
  "team_values team [] = Inr []"
| "team_values team (key # keys) =
     (case getitem team key of
        Inl e \<Rightarrow> Inl e
      | Inr v \<Rightarrow> (case team_values team keys of
                    Inl e \<Rightarrow> Inl e
                  | Inr vs \<Rightarrow> Inr (v # vs)))"

definition get_ranking_str :: "str_dict \<Rightarrow> string list \<Rightarrow> string \<Rightarrow> error + string" where
  "get_ranking_str team keys separator =
     (case team_values team keys of Inl e \<Rightarrow> Inl e | Inr vs \<Rightarrow> Inr (join_str separator vs))"

fun ranking_lines :: "str_dict list \<Rightarrow> string list \<Rightarrow> error + string list" where
  \<comment> \<open>\<open>[self.__get_ranking_str(team, keys) for team in ranking]\<close>\<close>
  "ranking_lines [] keys = Inr []"
| "ranking_lines (team # rest) keys =
     (case get_ranking_str team keys '' | '' of
        Inl e \<Rightarrow> Inl e
      | Inr l \<Rightarrow> (case ranking_lines rest keys of
                   Inl e \<Rightarrow> Inl e
                 | Inr ls \<Rightarrow> Inr (l # ls)))"

definition ranking_keys :: "string list" where
  "ranking_keys = [''rank'', ''name'', ''win_loss'', ''diff'']"

definition generate_ranking_text :: "ranking_item list \<Rightarrow> error + string" where
  "generate_ranking_text ranking =
     (let ranking' = map get_rank_info ranking;
          keys = ranking_keys
      in case pad_dictionary keys ranking' of
           Inl e \<Rightarrow> Inl e
         | Inr padded \<Rightarrow>
             (case ranking_lines padded keys of
                Inl e \<Rightarrow> Inl e
              | Inr ranking_str \<Rightarrow> Inr (join_str newline ranking_str)))"


section \<open>embed\_generator.py: fixtures\<close>

text \<open>
  A score arrives as a number or \<open>null\<close>; the forfeit pass replaces it by a string.
\<close>

datatype score = NoScore | IntScore int | StrScore string

definition str_score :: "score \<Rightarrow> string" where
  \<comment> \<open>what an f-string inserts for the score\<close>
  "str_score sc = (case sc of NoScore \<Rightarrow> ''None'' | IntScore i \<Rightarrow> str_int i | StrScore s \<Rightarrow> s)"

record opponent =
  opp_participant :: participant
  forfeit :: bool
  score :: score

record match =
  status :: string
  opponents :: "opponent list"

text \<open>The dictionaries built by \<open>__get_match_info\<close>.\<close>

record team_info =
  info_name :: string
  info_emote :: "string option"
  info_short :: "string option"
  info_score :: score

record match_info =
  info_status :: string
  home_team :: team_info
  away_team :: team_info

text \<open>A custom emote of the guild the message is posted to.\<close>

record emoji =
  emoji_name :: string
  emoji_id :: int

definition mention :: "emoji \<Rightarrow> string" where
  \<comment> \<open>\<open>f"<:{emoji.name}:{emoji.id}>"\<close>\<close>
  "mention e = ''<:'' @ emoji_name e @ '':'' @ str_int (emoji_id e) @ ''>''"

fun emote_search :: "emoji list \<Rightarrow> string \<Rightarrow> string option" where
  \<comment> \<open>the loop of \<open>__get_emote_id\<close>, the wanted name already in lower case\<close>
  "emote_search [] wanted = None"
| "emote_search (e # rest) wanted =
     (if lower (emoji_name e) = wanted then Some (mention e) else emote_search rest wanted)"

definition get_emote_id :: "emoji list \<Rightarrow> string \<Rightarrow> string option" where
  "get_emote_id guild emote_name = emote_search guild (lower emote_name)"

fun emote_name_loop :: "bool \<Rightarrow> string \<Rightarrow> string \<Rightarrow> string" where
  \<comment> \<open>the loop of \<open>__team_name_to_emote_name\<close>: \<open>prev_whitespace\<close>, \<open>emote_name\<close>, the rest of the name\<close>
  "emote_name_loop prev_whitespace emote_name [] = emote_name"
| "emote_name_loop prev_whitespace emote_name (c # cs) =
     (if c = CHR '' '' then emote_name_loop True emote_name cs
      else if prev_whitespace then emote_name_loop False (emote_name @ upper_char c) cs
      else emote_name_loop False (emote_name @ [c]) cs)"

definition team_name_to_emote_name :: "string \<Rightarrow> string" where
  "team_name_to_emote_name team_name = emote_name_loop True [] team_name"

definition find_emote_id :: "emoji list \<Rightarrow> team_info \<Rightarrow> string" where
  "find_emote_id guild team =
     (let given = (case info_emote team of
                     None \<Rightarrow> None
                   | Some e \<Rightarrow> get_emote_id guild e)
      in case given of
           Some emote_id \<Rightarrow> emote_id
         | None \<Rightarrow>
             (let guessed_emote = team_name_to_emote_name (info_name team)
              in case get_emote_id guild guessed_emote of
                   None \<Rightarrow> '':grey_question:''
                 | Some emote_id \<Rightarrow> emote_id))"

definition apply_match_forfeit :: "opponent \<Rightarrow> opponent" where
  "apply_match_forfeit team =
     (if forfeit team then team\<lparr>score := StrScore ''FF''\<rparr> else team\<lparr>score := StrScore ''W''\<rparr>)"

definition team_info_of :: "opponent \<Rightarrow> team_info" where
  "team_info_of team =
     \<lparr>info_name = name (opp_participant team),
      info_emote = emote (custom_fields (opp_participant team)),
      info_short = short_name (custom_fields (opp_participant team)),
      info_score = score team\<rparr>"

definition get_match_info :: "match \<Rightarrow> error + match_info" where
  \<comment> \<open>\<open>match["opponents"][0]\<close> and \<open>[1]\<close> raise IndexError on a shorter list\<close>
  "get_match_info m =
     (case opponents m of
        home # away # _ \<Rightarrow>
          (let (home', away') =
                 (if forfeit home \<or> forfeit away
                  then (apply_match_forfeit home, apply_match_forfeit away)
                  else (home, away))
           in Inr \<lparr>info_status = status m,
                   home_team = team_info_of home',
                   away_team = team_info_of away'\<rparr>)
      | _ \<Rightarrow> Inl IndexError)"

definition display_name :: "team_info \<Rightarrow> string" where
  "display_name team = (case info_short team of None \<Rightarrow> info_name team | Some s \<Rightarrow> s)"

definition get_match_string :: "emoji list \<Rightarrow> match_info \<Rightarrow> string" where
  "get_match_string guild m =
     (let home = home_team m;
          away = away_team m;
          home_emote = find_emote_id guild home;
          away_emote = find_emote_id guild away;
          home_str = display_name home @ '' '' @ home_emote;
          away_str = away_emote @ '' '' @ display_name away
      in if info_status m = ''pending''
         then home_str @ '' vs '' @ away_str
         else (let result_str = str_score (info_score home) @ ''-'' @ str_score (info_score away)
               in home_str @ '' '' @ result_str @ '' '' @ away_str))"

fun match_infos :: "match list \<Rightarrow> error + match_info list" where
  \<comment> \<open>\<open>[self.__get_match_info(match) for match in matches]\<close>\<close>
  "match_infos [] = Inr []"
| "match_infos (m # rest) =
     (case get_match_info m of
        Inl e \<Rightarrow> Inl e
      | Inr i \<Rightarrow> (case match_infos rest of Inl e \<Rightarrow> Inl e | Inr is \<Rightarrow> Inr (i # is)))"

definition generate_fixture_text :: "emoji list \<Rightarrow> match list \<Rightarrow> error + string" where
  "generate_fixture_text guild matches =
     (case match_infos matches of
        Inl e \<Rightarrow> Inl e
      | Inr infos \<Rightarrow> Inr (join_str newline (map (get_match_string guild) infos)))"

section \<open>embed\_generator.py: colour codes\<close>













section \<open>toornament.py: time\<close>

text \<open>
  A naive \<open>datetime\<close> is a point of the proleptic Gregorian calendar with microsecond
  resolution: the model counts the microseconds since 0001-01-01 00:00:00, so that
  comparison is \<open><\<close> and adding a \<open>timedelta\<close> is \<open>+\<close>. The fields a \<open>datetime\<close>
  prints are computed from the count (\<open>civil_of\<close>) and back (\<open>of_civil\<close>).
\<close>

type_synonym datetime = int

definition max_datetime :: int where
  \<comment> \<open>the first microsecond after 9999-12-31 23:59:59.999999\<close>
  "max_datetime = 3652059 * 86400000000"

definition add_seconds :: "datetime \<Rightarrow> int \<Rightarrow> error + datetime" where
  \<comment> \<open>\<open>t + datetime.timedelta(seconds=n)\<close>: OverflowError outside the years 1..9999\<close>
  "add_seconds t n =
     (let r = t + n * 1000000
      in if 0 \<le> r \<and> r < max_datetime then Inr r else Inl OverflowError)"

definition is_leap :: "nat \<Rightarrow> bool" where
  "is_leap y = (y mod 4 = 0 \<and> (y mod 100 \<noteq> 0 \<or> y mod 400 = 0))"

definition days_in_year :: "nat \<Rightarrow> nat" where
  "days_in_year y = (if is_leap y then 366 else 365)"

definition days_in_month :: "nat \<Rightarrow> nat \<Rightarrow> nat" where
  "days_in_month y m =
     (if m = 2 then (if is_leap y then 29 else 28)
      else if m = 4 \<or> m = 6 \<or> m = 9 \<or> m = 11 then 30 else 31)"

function split_year :: "nat \<Rightarrow> nat \<Rightarrow> nat \<times> nat" where
  \<comment> \<open>from day \<open>n\<close> counted from 1 January of year \<open>y\<close>: the year it falls in and the day of that year\<close>
  "split_year y n =
     (if n < days_in_year y then (y, n) else split_year (Suc y) (n - days_in_year y))"
  by pat_completeness auto
termination
  by (relation "measure (\<lambda>(y, n). n)") (auto simp: days_in_year_def)

declare split_year.simps [simp del]

function split_month :: "nat \<Rightarrow> nat \<Rightarrow> nat \<Rightarrow> nat \<times> nat" where
  "split_month y m n =
     (if 12 \<le> m \<or> n < days_in_month y m then (m, n)
      else split_month y (Suc m) (n - days_in_month y m))"
  by pat_completeness auto
termination
  by (relation "measure (\<lambda>(y, m, n). 12 - m)") auto

declare split_month.simps [simp del]

definition days_before_year :: "nat \<Rightarrow> nat" where
  \<comment> \<open>the days from 0001-01-01 to 1 January of year \<open>y\<close>\<close>
  "days_before_year y = (let p = y - 1 in p * 365 + p div 4 - p div 100 + p div 400)"

definition days_before_month :: "nat \<Rightarrow> nat \<Rightarrow> nat" where
  \<comment> \<open>the days of year \<open>y\<close> before the first of month \<open>m\<close>\<close>
  "days_before_month y m = sum_list (map (days_in_month y) [1..<m])"

record civil =
  year :: nat
  month :: nat
  day :: nat
  hour :: nat
  minute :: nat
  second :: nat
  microsecond :: nat

definition civil_of :: "datetime \<Rightarrow> civil" where
  "civil_of t =
     (let us = nat t;
          days = us div 86400000000;
          rest = us mod 86400000000;
          (y, doy) = split_year 1 days;
          (m, d) = split_month y 1 doy
      in \<lparr>year = y, month = m, day = Suc d,
          hour = rest div 3600000000,
          minute = (rest div 60000000) mod 60,
          second = (rest div 1000000) mod 60,
          microsecond = rest mod 1000000\<rparr>)"

definition of_civil :: "civil \<Rightarrow> datetime" where
  "of_civil c =
     int ((((days_before_year (year c) + days_before_month (year c) (month c) + (day c - 1)) * 24
            + hour c) * 60 + minute c) * 60 + second c) * 1000000 + int (microsecond c)"

definition valid_civil :: "civil \<Rightarrow> bool" where
  \<comment> \<open>the range check of the \<open>datetime\<close> constructor\<close>
  "valid_civil c =
     (1 \<le> year c \<and> year c \<le> 9999 \<and> 1 \<le> month c \<and> month c \<le> 12 \<and>
      1 \<le> day c \<and> day c \<le> days_in_month (year c) (month c) \<and>
      hour c < 24 \<and> minute c < 60 \<and> second c < 60 \<and> microsecond c < 1000000)"

definition pad2 :: "nat \<Rightarrow> string" where
  "pad2 n = [digit_char (n div 10 mod 10), digit_char (n mod 10)]"

definition pad4 :: "nat \<Rightarrow> string" where
  "pad4 n = [digit_char (n div 1000 mod 10), digit_char (n div 100 mod 10),
             digit_char (n div 10 mod 10), digit_char (n mod 10)]"

definition strftime :: "datetime \<Rightarrow> string" where
  \<comment> \<open>\<open>t.strftime("%d.%m.%Y, %H:%M:%S")\<close>. (A year below 1000 is written with leading
      zeros here; platforms differ on that, and the properties below start at the year 1000.)\<close>
  "strftime t =
     (let c = civil_of t
      in pad2 (day c) @ ''.'' @ pad2 (month c) @ ''.'' @ pad4 (year c) @ '', ''
         @ pad2 (hour c) @ '':'' @ pad2 (minute c) @ '':'' @ pad2 (second c))"

definition digit_value :: "char \<Rightarrow> nat option" where
  "digit_value c = map_of (zip ''0123456789'' [0, 1, 2, 3, 4, 5, 6, 7, 8, 9]) c"

fun read_digits :: "nat \<Rightarrow> string \<Rightarrow> nat option" where
  \<comment> \<open>the number a string of decimal digits writes, after the digits read into \<open>acc\<close>\<close>
  "read_digits acc [] = Some acc"
| "read_digits acc (c # cs) =
     (case digit_value c of None \<Rightarrow> None | Some d \<Rightarrow> read_digits (10 * acc + d) cs)"

fun read_fields :: "string list \<Rightarrow> nat list option" where
  \<comment> \<open>every field as a number, or \<open>None\<close> when one holds something other than digits\<close>
  "read_fields [] = Some []"
| "read_fields (f # fs) =
     (case read_digits 0 f of
        None \<Rightarrow> None
      | Some n \<Rightarrow> map_option ((#) n) (read_fields fs))"

definition strptime :: "string \<Rightarrow> error + datetime" where
  \<comment> \<open>\<open>datetime.strptime(s, "%d.%m.%Y, %H:%M:%S")\<close> on the fixed-width text that
      \<open>strftime\<close> writes. (The library also accepts looser spellings, such as one-digit
      fields; they are rejected here, and no property below concerns them.)\<close>
  "strptime s =
     (if length s = 20 \<and> take 1 (drop 2 s) = ''.'' \<and> take 1 (drop 5 s) = ''.''
         \<and> take 2 (drop 10 s) = '', '' \<and> take 1 (drop 14 s) = '':'' \<and> take 1 (drop 17 s) = '':''
      then
        (case read_fields [take 2 s, take 2 (drop 3 s), take 4 (drop 6 s),
                           take 2 (drop 12 s), take 2 (drop 15 s), take 2 (drop 18 s)] of
           None \<Rightarrow> Inl ValueError
         | Some ns \<Rightarrow>
             (let c = \<lparr>year = ns ! 2, month = ns ! 1, day = ns ! 0,
                       hour = ns ! 3, minute = ns ! 4, second = ns ! 5, microsecond = 0\<rparr>
              in if valid_civil c then Inr (of_civil c) else Inl ValueError))
      else Inl ValueError)"


section \<open>toornament.py: the API client\<close>

subsection \<open>JSON values, requests and responses\<close>

text \<open>JSON values; the numbers of the model are the integers.\<close>

datatype json =
    JNull
  | JBool bool
  | JInt int
  | JStr string
  | JArr "json list"
  | JObj "(string \<times> json) list"

definition json_getitem :: "json \<Rightarrow> string \<Rightarrow> error + json" where
  \<comment> \<open>\<open>value[key]\<close> with a string key: KeyError on a dictionary without the key,
      TypeError on anything that is not a dictionary\<close>
  "json_getitem v key =
     (case v of
        JObj kvs \<Rightarrow> (case map_of kvs key of None \<Rightarrow> Inl KeyError | Some x \<Rightarrow> Inr x)
      | _ \<Rightarrow> Inl TypeError)"

definition json_int :: "json \<Rightarrow> int option" where
  \<comment> \<open>the integer a value counts as in arithmetic: a number, or a boolean as 0 or 1;
      anything else is a TypeError\<close>
  "json_int v = (case v of JInt n \<Rightarrow> Some n | JBool b \<Rightarrow> Some (if b then 1 else 0) | _ \<Rightarrow> None)"

definition py_extend :: "json list \<Rightarrow> json \<Rightarrow> error + json list" where
  \<comment> \<open>\<open>page_list += value\<close>: a list is extended by what the value iterates over\<close>
  "py_extend page_list v =
     (case v of
        JArr xs \<Rightarrow> Inr (page_list @ xs)
      | JObj kvs \<Rightarrow> Inr (page_list @ map (\<lambda>kv. JStr (fst kv)) kvs)
      | JStr cs \<Rightarrow> Inr (page_list @ map (\<lambda>c. JStr [c]) cs)
      | _ \<Rightarrow> Inl TypeError)"

datatype http_method = GET | POST

type_synonym dict = "(string \<times> json) list"

record request =
  req_method :: http_method
  req_url :: string
  req_headers :: dict
  req_data :: "dict option"

text \<open>
  A response as the client reads it: the status code, the decoded JSON body, the
  \<open>Content-Range\<close> header when the response has one, and the time the round trip took
  (microseconds).
\<close>

record response =
  status_code :: int
  body :: json
  content_range :: "string option"
  latency :: nat

definition resp_ok :: "response \<Rightarrow> bool" where
  \<comment> \<open>\<open>response.ok\<close>: \<open>raise_for_status\<close> raises for the codes 400..599\<close>
  "resp_ok r = (\<not> (400 \<le> status_code r \<and> status_code r < 600))"

subsection \<open>The client and its surroundings\<close>

record 'e credentials =
  client_id :: json
  client_secret :: json
  token :: json
  auth_key :: json
  auth_type :: json
  auth_scope :: json
  auth_expiry :: 'e

text \<open>What the client does to the outside, in the order it does it.\<close>

datatype event =
    Sent request datetime
  | Saved "string credentials"

text \<open>
  The state of a \<open>ToornamentAPI\<close> object together with what it touches: the wall clock,
  the credential file, and a trace of the requests sent (each with the time it was sent
  at) and of the writes to the credential file. Time passes while the client sleeps and
  while it waits for a response; computing takes no time. The clock stays far enough
  from the end of the calendar that adding a minute to it does not overflow.
\<close>

record api =
  clock :: datetime
  api_cooldown :: datetime
  time_per_request :: int
  the_credentials :: "datetime credentials"
  credential_file :: "string credentials"
  tournament_buffer :: "string \<rightharpoonup> json"
  group_buffer :: "string \<rightharpoonup> json list"
  trace :: "event list"

definition load_api_credentials :: "string credentials \<Rightarrow> error + datetime credentials" where
  \<comment> \<open>from the content of the credential file to the dictionary the client keeps\<close>
  "load_api_credentials f =
     (case strptime (auth_expiry f) of
        Inl e \<Rightarrow> Inl e
      | Inr t \<Rightarrow>
          Inr \<lparr>client_id = client_id f, client_secret = client_secret f, token = token f,
               auth_key = auth_key f, auth_type = auth_type f, auth_scope = auth_scope f,
               auth_expiry = t\<rparr>)"

definition init_api :: "datetime \<Rightarrow> string credentials \<Rightarrow> error + api" where
  \<comment> \<open>\<open>ToornamentAPI(auth_path)\<close>, constructed at time \<open>now\<close> with the file's content \<open>f\<close>\<close>
  "init_api now f =
     (case load_api_credentials f of
        Inl e \<Rightarrow> Inl e
      | Inr c \<Rightarrow>
          Inr \<lparr>clock = now, api_cooldown = now, time_per_request = 333, the_credentials = c,
               credential_file = f, tournament_buffer = Map.empty, group_buffer = Map.empty,
               trace = []\<rparr>)"

definition update_api_credentials :: "json \<Rightarrow> api \<Rightarrow> (error + unit) \<times> api" where
  \<comment> \<open>the assignments happen one by one, so an exception leaves the earlier ones done\<close>
  "update_api_credentials resp s =
     (case json_getitem resp ''access_token'' of
        Inl e \<Rightarrow> (Inl e, s)
      | Inr access_token \<Rightarrow>
     (let s1 = s\<lparr>the_credentials := (the_credentials s)\<lparr>auth_key := access_token\<rparr>\<rparr>
      in case json_getitem resp ''token_type'' of
        Inl e \<Rightarrow> (Inl e, s1)
      | Inr token_type \<Rightarrow>
     (let s2 = s1\<lparr>the_credentials := (the_credentials s1)\<lparr>auth_type := token_type\<rparr>\<rparr>
      in case json_getitem resp ''scope'' of
        Inl e \<Rightarrow> (Inl e, s2)
      | Inr scope \<Rightarrow>
     (let s3 = s2\<lparr>the_credentials := (the_credentials s2)\<lparr>auth_scope := scope\<rparr>\<rparr>
      in case json_getitem resp ''expires_in'' of
        Inl e \<Rightarrow> (Inl e, s3)
      | Inr expires_in \<Rightarrow>
          (case json_int expires_in of
             None \<Rightarrow> (Inl TypeError, s3)
           | Some expiry_in_seconds \<Rightarrow>
               (case add_seconds (clock s3) (expiry_in_seconds - 10) of
                  Inl e \<Rightarrow> (Inl e, s3)
                | Inr expiry \<Rightarrow>
                    (let c = the_credentials s3;
                         written = \<lparr>client_id = client_id c, client_secret = client_secret c,
                                    token = token c, auth_key = auth_key c, auth_type = auth_type c,
                                    auth_scope = auth_scope c, auth_expiry = strftime expiry\<rparr>
                     in (Inr (),
                         s3\<lparr>credential_file := written,
                            trace := trace s3 @ [Saved written],
                            the_credentials := c\<lparr>auth_expiry := expiry\<rparr>\<rparr>))))))))"

definition has_api_token_expired :: "api \<Rightarrow> bool" where
  \<comment> \<open>\<open>datetime.now() + datetime.timedelta(minutes = 1) > auth_expiry\<close>\<close>
  "has_api_token_expired s = (clock s + 60000000 > auth_expiry (the_credentials s))"

definition respect_rate_limits :: "api \<Rightarrow> api" where
  \<comment> \<open>\<open>pause.until(t)\<close> returns when the clock shows \<open>t\<close>; \<open>time_per_request\<close> counts milliseconds\<close>
  "respect_rate_limits s =
     (let s1 = (if clock s < api_cooldown s then s\<lparr>clock := api_cooldown s\<rparr> else s)
      in s1\<lparr>api_cooldown := clock s1 + time_per_request s1 * 1000\<rparr>)"

definition sent :: "request \<Rightarrow> api \<Rightarrow> api" where
  "sent req s = s\<lparr>trace := trace s @ [Sent req (clock s)]\<rparr>"

definition received :: "response \<Rightarrow> api \<Rightarrow> api" where
  "received r s = s\<lparr>clock := clock s + int (latency r)\<rparr>"

definition http_send :: "request \<Rightarrow> response list \<Rightarrow> api \<Rightarrow> (error + response) \<times> response list \<times> api" where
  \<comment> \<open>\<open>requests.get\<close> and \<open>requests.post\<close>: the server's answers are given as a list, the
      next request takes the first; with none left the connection fails\<close>
  "http_send req inbox s =
     (case inbox of
        [] \<Rightarrow> (Inl ConnectionError, [], sent req s)
      | r # rest \<Rightarrow> (Inr r, rest, received r (sent req s)))"

definition post_unauthorized :: "string \<Rightarrow> dict option \<Rightarrow> dict \<Rightarrow> response list \<Rightarrow> api
    \<Rightarrow> (error + json) \<times> response list \<times> api" where
  \<comment> \<open>\<open>__request_post\<close> from the API-token header on (all of it when \<open>authorization\<close> is False)\<close>
  "post_unauthorized url dat headers inbox s =
     (let headers' = AList.update ''X-Api-Key'' (token (the_credentials s)) headers;
          s1 = respect_rate_limits s
      in case http_send \<lparr>req_method = POST, req_url = url, req_headers = headers', req_data = dat\<rparr>
                inbox s1 of
           (Inl e, inbox', s2) \<Rightarrow> (Inl e, inbox', s2)
         | (Inr r, inbox', s2) \<Rightarrow>
             if resp_ok r then (Inr (body r), inbox', s2)
             else (Inl (HTTPError (status_code r)), inbox', s2))"

definition token_url :: string where
  "token_url = ''https://api.toornament.com/oauth/v2/token''"

definition token_request_data :: "api \<Rightarrow> dict" where
  "token_request_data s =
     [(''grant_type'', JStr ''client_credentials''),
      (''scope'', JStr ''organizer:participant organizer:result''),
      (''client_id'', client_id (the_credentials s)),
      (''client_secret'', client_secret (the_credentials s))]"

definition check_auth_token :: "response list \<Rightarrow> api \<Rightarrow> (error + unit) \<times> response list \<times> api" where
  "check_auth_token inbox s =
     (if has_api_token_expired s then
        (case post_unauthorized token_url (Some (token_request_data s))
                [(''Content-Type'', JStr ''application/x-www-form-urlencoded'')] inbox s of
           (Inl e, inbox', s1) \<Rightarrow> (Inl e, inbox', s1)
         | (Inr resp, inbox', s1) \<Rightarrow>
             (case update_api_credentials resp s1 of (r, s2) \<Rightarrow> (r, inbox', s2)))
      else (Inr (), inbox, s))"

definition authorize :: "bool \<Rightarrow> dict \<Rightarrow> response list \<Rightarrow> api \<Rightarrow> (error + dict) \<times> response list \<times> api" where
  \<comment> \<open>the block every request function starts with:
      \<open>if authorization: self.__check_auth_token(); headers['Authorization'] = auth_key\<close>\<close>
  "authorize authorization headers inbox s =
     (if authorization then
        (case check_auth_token inbox s of
           (Inl e, inbox', s1) \<Rightarrow> (Inl e, inbox', s1)
         | (Inr _, inbox', s1) \<Rightarrow>
             (Inr (AList.update ''Authorization'' (auth_key (the_credentials s1)) headers), inbox', s1))
      else (Inr headers, inbox, s))"

definition request_post :: "string \<Rightarrow> dict option \<Rightarrow> dict \<Rightarrow> bool \<Rightarrow> response list \<Rightarrow> api
    \<Rightarrow> (error + json) \<times> response list \<times> api" where
  "request_post url dat headers authorization inbox s =
     (case authorize authorization headers inbox s of
        (Inl e, inbox', s1) \<Rightarrow> (Inl e, inbox', s1)
      | (Inr headers', inbox', s1) \<Rightarrow> post_unauthorized url dat headers' inbox' s1)"

definition request_get :: "string \<Rightarrow> dict \<Rightarrow> bool \<Rightarrow> response list \<Rightarrow> api
    \<Rightarrow> (error + json) \<times> response list \<times> api" where
  "request_get url headers authorization inbox s =
     (case authorize authorization headers inbox s of
        (Inl e, inbox', s1) \<Rightarrow> (Inl e, inbox', s1)
      | (Inr headers1, inbox', s1) \<Rightarrow>
          (let headers2 = AList.update ''X-Api-Key'' (token (the_credentials s1)) headers1;
               s2 = respect_rate_limits s1
           in case http_send \<lparr>req_method = GET, req_url = url, req_headers = headers2, req_data = None\<rparr>
                     inbox' s2 of
                (Inl e, inbox'', s3) \<Rightarrow> (Inl e, inbox'', s3)
              | (Inr r, inbox'', s3) \<Rightarrow>
                  if resp_ok r then (Inr (body r), inbox'', s3)
                  else (Inl (HTTPError (status_code r)), inbox'', s3)))"

subsection \<open>Pagination\<close>

text \<open>
  \<open>parse.parse(f"{unit} {{:d}}-{{:d}}/{{:d}}", header)\<close> belongs to a library outside the
  repository. The client takes it as a parameter: from the unit and the header text to
  the three numbers, or \<open>None\<close> when the text does not match.
\<close>

type_synonym range_parser = "string \<Rightarrow> string \<Rightarrow> (int \<times> int \<times> int) option"

definition range_header :: "string \<Rightarrow> int \<Rightarrow> int \<Rightarrow> json" where
  \<comment> \<open>\<open>f"{unit}={page_start}-{page_end}"\<close> with \<open>page_end = page_start + items_per_request - 1\<close>\<close>
  "range_header unit page_start items_per_request =
     JStr (unit @ ''='' @ str_int page_start @ ''-'' @ str_int (page_start + items_per_request - 1))"

definition page_request :: "string \<Rightarrow> dict \<Rightarrow> request" where
  "page_request url headers = \<lparr>req_method = GET, req_url = url, req_headers = headers, req_data = None\<rparr>"

fun pages_loop :: "range_parser \<Rightarrow> string \<Rightarrow> dict \<Rightarrow> string \<Rightarrow> int \<Rightarrow> int \<Rightarrow> int \<Rightarrow> json list
    \<Rightarrow> response list \<Rightarrow> api \<Rightarrow> (error + json list) \<times> response list \<times> api" where
  \<comment> \<open>the \<open>while\<close> loop of \<open>__request_get_pages\<close>; the two equations differ only in whether
      the server still answers\<close>
  "pages_loop parse url headers unit items_per_request page_start total_page_num page_list [] s =
     (if page_start < total_page_num then
        (let headers' = AList.update ''Range'' (range_header unit page_start items_per_request) headers;
             s1 = respect_rate_limits s
         in (Inl ConnectionError, [], sent (page_request url headers') s1))
      else (Inr page_list, [], s))"
| "pages_loop parse url headers unit items_per_request page_start total_page_num page_list (r # rest) s =
     (if page_start < total_page_num then
        (let headers' = AList.update ''Range'' (range_header unit page_start items_per_request) headers;
             s1 = respect_rate_limits s;
             s2 = received r (sent (page_request url headers') s1)
         in if resp_ok r then
              (case py_extend page_list (body r) of
                 Inl e \<Rightarrow> (Inl e, rest, s2)
               | Inr page_list' \<Rightarrow>
                   (case content_range r of
                      None \<Rightarrow> (Inl KeyError, rest, s2)
                    | Some content_range_str \<Rightarrow>
                        (case parse unit content_range_str of
                           None \<Rightarrow> (Inr page_list', rest, s2)
                         | Some (first_page_index, last_page_index, total_page_num') \<Rightarrow>
                             pages_loop parse url headers' unit items_per_request
                               (last_page_index + 1) total_page_num' page_list' rest s2)))
            else (Inl (HTTPError (status_code r)), rest, s2))
      else (Inr page_list, r # rest, s))"

declare pages_loop.simps [simp del]

definition request_get_pages :: "range_parser \<Rightarrow> string \<Rightarrow> dict \<Rightarrow> bool \<Rightarrow> string \<Rightarrow> int
    \<Rightarrow> response list \<Rightarrow> api \<Rightarrow> (error + json list) \<times> response list \<times> api" where
  "request_get_pages parse url headers authorization unit items_per_request inbox s =
     (case authorize authorization headers inbox s of
        (Inl e, inbox', s1) \<Rightarrow> (Inl e, inbox', s1)
      | (Inr headers1, inbox', s1) \<Rightarrow>
          (let headers2 = AList.update ''X-Api-Key'' (token (the_credentials s1)) headers1
           in pages_loop parse url headers2 unit items_per_request 0 1 [] inbox' s1))"


subsection \<open>The public methods\<close>

text \<open>
  Every public method calls the request functions with their default \<open>headers\<close> (a
  dictionary that keeps only keys each call overwrites, so it counts as empty) and
  without authorization.
\<close>

definition api_root :: string where
  "api_root = ''https://api.toornament.com/viewer/v2/tournaments/''"

definition get_ranking :: "range_parser \<Rightarrow> string \<Rightarrow> string \<Rightarrow> string \<Rightarrow> response list \<Rightarrow> api
    \<Rightarrow> (error + json list) \<times> response list \<times> api" where
  "get_ranking parse tournament_id stage_id group_id inbox s =
     request_get_pages parse
       (api_root @ tournament_id @ ''/stages/'' @ stage_id @ ''/ranking-items'' @ ''?group_ids='' @ group_id)
       [] False ''items'' 50 inbox s"

definition get_matches :: "range_parser \<Rightarrow> string \<Rightarrow> string \<Rightarrow> string \<Rightarrow> int list \<Rightarrow> response list \<Rightarrow> api
    \<Rightarrow> (error + json list) \<times> response list \<times> api" where
  "get_matches parse tournament_id stage_id group_id round_nums inbox s =
     request_get_pages parse
       (api_root @ tournament_id @ ''/matches'' @ ''?stage_ids='' @ stage_id @ ''&group_ids='' @ group_id
          @ ''&round_numbers='' @ join_str '','' (map str_int round_nums))
       [] False ''matches'' 50 inbox s"

definition get_groups :: "range_parser \<Rightarrow> string \<Rightarrow> response list \<Rightarrow> api
    \<Rightarrow> (error + json list) \<times> response list \<times> api" where
  "get_groups parse tournament_id inbox s =
     request_get_pages parse (api_root @ tournament_id @ ''/groups'') [] False ''groups'' 50 inbox s"

definition get_stage :: "string \<Rightarrow> string \<Rightarrow> response list \<Rightarrow> api \<Rightarrow> (error + json) \<times> response list \<times> api" where
  "get_stage tournament_id stage_id inbox s =
     request_get (api_root @ tournament_id @ ''/stages/'' @ stage_id) [] False inbox s"

definition get_tournament :: "string \<Rightarrow> response list \<Rightarrow> api \<Rightarrow> (error + json) \<times> response list \<times> api" where
  "get_tournament tournament_id inbox s =
     (case tournament_buffer s tournament_id of
        Some tournament \<Rightarrow> (Inr tournament, inbox, s)
      | None \<Rightarrow>
          (case request_get (api_root @ tournament_id) [] False inbox s of
             (Inl e, inbox', s1) \<Rightarrow> (Inl e, inbox', s1)
           | (Inr tournament, inbox', s1) \<Rightarrow>
               (Inr tournament, inbox',
                s1\<lparr>tournament_buffer := (tournament_buffer s1)(tournament_id \<mapsto> tournament)\<rparr>)))"

fun find_group :: "json list \<Rightarrow> string \<Rightarrow> string \<Rightarrow> error + json option \<times> json list" where
  \<comment> \<open>the \<open>for\<close> loop of \<open>get_group_info\<close>: the group found, and the list with that group
      marked with the tournament's id (the source writes into the buffered list)\<close>
  "find_group [] group_name tournament_id = Inr (None, [])"
| "find_group (g # rest) group_name tournament_id =
     (case json_getitem g ''name'' of
        Inl e \<Rightarrow> Inl e
      | Inr n \<Rightarrow>
          if n = JStr group_name then
            (let g' = (case g of JObj kvs \<Rightarrow> JObj (AList.update ''tournament_id'' (JStr tournament_id) kvs)
                               | _ \<Rightarrow> g)
             in Inr (Some g', g' # rest))
          else (case find_group rest group_name tournament_id of
                  Inl e \<Rightarrow> Inl e
                | Inr (found, rest') \<Rightarrow> Inr (found, g # rest')))"

definition get_group_info :: "range_parser \<Rightarrow> string \<Rightarrow> string \<Rightarrow> response list \<Rightarrow> api
    \<Rightarrow> (error + json option) \<times> response list \<times> api" where
  "get_group_info parse tournament_id group_name inbox s =
     (case (case group_buffer s tournament_id of
              Some groups \<Rightarrow> (Inr groups, inbox, s)
            | None \<Rightarrow>
                (case get_groups parse tournament_id inbox s of
                   (Inl e, inbox', s1) \<Rightarrow> (Inl e, inbox', s1)
                 | (Inr groups, inbox', s1) \<Rightarrow>
                     (Inr groups, inbox', s1\<lparr>group_buffer := (group_buffer s1)(tournament_id \<mapsto> groups)\<rparr>))) of
        (Inl e, inbox', s1) \<Rightarrow> (Inl e, inbox', s1)
      | (Inr groups, inbox', s1) \<Rightarrow>
          (case find_group groups group_name tournament_id of
             Inl e \<Rightarrow> (Inl e, inbox', s1)
           | Inr (found, groups') \<Rightarrow>
               (Inr found, inbox', s1\<lparr>group_buffer := (group_buffer s1)(tournament_id \<mapsto> groups')\<rparr>)))"

text \<open>One call on the client: a public method, or one of the request functions.\<close>

datatype operation =
    GetRanking string string string
  | GetMatches string string string "int list"
  | GetGroups string
  | GetStage string string
  | GetTournament string
  | GetGroupInfo string string
  | RequestGet string dict bool
  | RequestPost string "dict option" dict bool
  | RequestGetPages string dict bool string int
  | CheckAuthToken

fun run_op :: "range_parser \<Rightarrow> operation \<Rightarrow> response list \<times> api \<Rightarrow> response list \<times> api" where
  \<comment> \<open>the answers left and the state after the call, whether it returned or raised\<close>
  "run_op parse (GetRanking t st g) (inbox, s) = snd (get_ranking parse t st g inbox s)"
| "run_op parse (GetMatches t st g rs) (inbox, s) = snd (get_matches parse t st g rs inbox s)"
| "run_op parse (GetGroups t) (inbox, s) = snd (get_groups parse t inbox s)"
| "run_op parse (GetStage t st) (inbox, s) = snd (get_stage t st inbox s)"
| "run_op parse (GetTournament t) (inbox, s) = snd (get_tournament t inbox s)"
| "run_op parse (GetGroupInfo t n) (inbox, s) = snd (get_group_info parse t n inbox s)"
| "run_op parse (RequestGet url headers a) (inbox, s) = snd (request_get url headers a inbox s)"
| "run_op parse (RequestPost url dat headers a) (inbox, s) = snd (request_post url dat headers a inbox s)"
| "run_op parse (RequestGetPages url headers a unit n) (inbox, s) =
     snd (request_get_pages parse url headers a unit n inbox s)"
| "run_op parse CheckAuthToken (inbox, s) = snd (check_auth_token inbox s)"

definition run_ops :: "range_parser \<Rightarrow> operation list \<Rightarrow> response list \<times> api \<Rightarrow> response list \<times> api" where
  "run_ops parse ops start = fold (run_op parse) ops start"

section \<open>Notions the properties are stated with\<close>

subsection \<open>The standings table\<close>

definition natural_field :: "string \<Rightarrow> ranking_item \<Rightarrow> string" where
  \<comment> \<open>a field of a row as \<open>__get_rank_info\<close> writes it, before padding\<close>
  "natural_field key team = (case get_rank_info team key of None \<Rightarrow> [] | Some v \<Rightarrow> v)"

definition column_width :: "string \<Rightarrow> ranking_item list \<Rightarrow> nat" where
  \<comment> \<open>the greatest natural width of a field over all rows\<close>
  "column_width key ranking = Max (set (map (\<lambda>team. length (natural_field key team)) ranking))"

definition pad_to :: "nat \<Rightarrow> string \<Rightarrow> string" where
  "pad_to w v = v @ replicate (w - length v) CHR '' ''"

definition example_ranking :: "ranking_item list" where
  "example_ranking =
     [\<lparr>rank = Some 1, position = 1,
       participant = \<lparr>name = ''Red Devils'', custom_fields = \<lparr>emote = None, short_name = Some ''RDV''\<rparr>\<rparr>,
       properties = \<lparr>wins = 10, losses = 2, score_difference = 15\<rparr>\<rparr>,
      \<lparr>rank = None, position = 12,
       participant = \<lparr>name = ''Blue'', custom_fields = \<lparr>emote = None, short_name = None\<rparr>\<rparr>,
       properties = \<lparr>wins = 3, losses = 9, score_difference = -7\<rparr>\<rparr>]"

subsection \<open>Fixtures\<close>

definition plain_team :: "string \<Rightarrow> participant" where
  "plain_team n = \<lparr>name = n, custom_fields = \<lparr>emote = None, short_name = None\<rparr>\<rparr>"

definition double_forfeit_match :: match where
  "double_forfeit_match =
     \<lparr>status = ''completed'',
      opponents = [\<lparr>opp_participant = plain_team ''Ants'', forfeit = True, score = IntScore 0\<rparr>,
                   \<lparr>opp_participant = plain_team ''Bees'', forfeit = True, score = IntScore 0\<rparr>]\<rparr>"

definition single_forfeit_match :: match where
  "single_forfeit_match =
     \<lparr>status = ''completed'',
      opponents = [\<lparr>opp_participant = plain_team ''Ants'', forfeit = False, score = IntScore 3\<rparr>,
                   \<lparr>opp_participant = plain_team ''Bees'', forfeit = True, score = IntScore 7\<rparr>]\<rparr>"

function space_words :: "string \<Rightarrow> string list" where
  \<comment> \<open>the words of a text: the maximal runs of characters other than the space\<close>
  "space_words [] = []"
| "space_words (c # cs) =
     (if c = CHR '' '' then space_words cs
      else (c # takeWhile (\<lambda>x. x \<noteq> CHR '' '') cs) # space_words (dropWhile (\<lambda>x. x \<noteq> CHR '' '') cs))"
  by pat_completeness auto
termination
  by (relation "measure length") (auto simp: less_Suc_eq_le length_dropWhile_le)

definition capitalize_first :: "string \<Rightarrow> string" where
  "capitalize_first w = (case w of [] \<Rightarrow> [] | c # cs \<Rightarrow> upper_char c @ cs)"

definition example_guild :: "emoji list" where
  "example_guild = [\<lparr>emoji_name = ''BlueJays'', emoji_id = 77\<rparr>, \<lparr>emoji_name = ''reddevils'', emoji_id = 42\<rparr>]"

subsection \<open>Colour codes\<close>



subsection \<open>Pagination\<close>

fun is_array :: "json \<Rightarrow> bool" where
  "is_array (JArr xs) = True"
| "is_array v = False"

definition page_items :: "response \<Rightarrow> json list" where
  \<comment> \<open>the items a page carries\<close>
  "page_items r = (case body r of JArr xs \<Rightarrow> xs | _ \<Rightarrow> [])"

definition page_range :: "range_parser \<Rightarrow> string \<Rightarrow> response \<Rightarrow> (int \<times> int \<times> int) option" where
  \<comment> \<open>the numbers \<open>a\<close>, \<open>b\<close>, \<open>n\<close> of a page's header \<open><unit> a-b/n\<close>, when it has one that parses\<close>
  "page_range parse unit r = (case content_range r of None \<Rightarrow> None | Some h \<Rightarrow> parse unit h)"

definition good_page :: "range_parser \<Rightarrow> string \<Rightarrow> response \<Rightarrow> bool" where
  \<comment> \<open>a successful response with a list of items and a well-formed header\<close>
  "good_page parse unit r = (resp_ok r \<and> is_array (body r) \<and> page_range parse unit r \<noteq> None)"

definition more_after :: "range_parser \<Rightarrow> string \<Rightarrow> response \<Rightarrow> bool" where
  \<comment> \<open>\<open>b < n - 1\<close>\<close>
  "more_after parse unit r = (case page_range parse unit r of None \<Rightarrow> False | Some (a, b, n) \<Rightarrow> b < n - 1)"

definition reaches_total :: "range_parser \<Rightarrow> string \<Rightarrow> response \<Rightarrow> bool" where
  \<comment> \<open>the next start \<open>b + 1\<close> reaches the total \<open>n\<close>; for a header within its total, \<open>b = n - 1\<close>\<close>
  "reaches_total parse unit r = (case page_range parse unit r of None \<Rightarrow> False | Some (a, b, n) \<Rightarrow> n \<le> b + 1)"

definition next_start :: "range_parser \<Rightarrow> string \<Rightarrow> response \<Rightarrow> int" where
  \<comment> \<open>\<open>b + 1\<close>\<close>
  "next_start parse unit r = (case page_range parse unit r of None \<Rightarrow> 0 | Some (a, b, n) \<Rightarrow> b + 1)"

fun sent_requests :: "event list \<Rightarrow> request list" where
  "sent_requests [] = []"
| "sent_requests (Sent req t # es) = req # sent_requests es"
| "sent_requests (Saved f # es) = sent_requests es"

definition range_of :: "request \<Rightarrow> json option" where
  \<comment> \<open>the \<open>Range\<close> header of a request\<close>
  "range_of req = map_of (req_headers req) ''Range''"

definition fetch_complete :: "range_parser \<Rightarrow> string \<Rightarrow> int \<Rightarrow> response list \<Rightarrow> response list \<Rightarrow> api
    \<Rightarrow> (error + json list) \<times> response list \<times> api \<Rightarrow> bool" where
  \<comment> \<open>the outcome of a fetch that was answered by \<open>pages\<close>: the items of all pages in
      order, nothing taken from the answers after them, and one request per page, the
      first window starting at 0 and every later one right after the page before it\<close>
  "fetch_complete parse unit items_per_request pages rest s result =
     (case result of
        (r, inbox', s') \<Rightarrow>
          r = Inr (concat (map page_items pages)) \<and> inbox' = rest \<and>
          map range_of (sent_requests (trace s'))
            = map range_of (sent_requests (trace s))
              @ map (\<lambda>start. Some (range_header unit start items_per_request))
                    (0 # map (next_start parse unit) (butlast pages)))"

text \<open>A parser for headers written with plain decimal numbers, to run the client on concrete answers.\<close>

definition split_at :: "char \<Rightarrow> string \<Rightarrow> (string \<times> string) option" where
  "split_at c s =
     (if c \<in> set s then Some (takeWhile (\<lambda>x. x \<noteq> c) s, tl (dropWhile (\<lambda>x. x \<noteq> c) s)) else None)"

definition read_number :: "string \<Rightarrow> int option" where
  "read_number ds = (if ds = [] then None else map_option int (read_digits 0 ds))"

definition decimal_range_parse :: range_parser where
  "decimal_range_parse unit h =
     (if take (length unit + 1) h = unit @ '' '' then
        (case split_at CHR ''-'' (drop (length unit + 1) h) of
           None \<Rightarrow> None
         | Some (a, rest) \<Rightarrow>
             (case split_at CHR ''/'' rest of
                None \<Rightarrow> None
              | Some (b, n) \<Rightarrow>
                  (case read_number a of
                     None \<Rightarrow> None
                   | Some x \<Rightarrow>
                       (case read_number b of
                          None \<Rightarrow> None
                        | Some y \<Rightarrow> map_option (\<lambda>z. (x, y, z)) (read_number n)))))
      else None)"

definition example_credentials :: "datetime credentials" where
  "example_credentials =
     \<lparr>client_id = JStr ''id'', client_secret = JStr ''secret'', token = JStr ''key'',
      auth_key = JStr ''old'', auth_type = JStr ''bearer'', auth_scope = JStr ''organizer:result'',
      auth_expiry = 63929313500000000\<rparr>"

definition example_file :: "string credentials" where
  "example_file =
     \<lparr>client_id = JStr ''id'', client_secret = JStr ''secret'', token = JStr ''key'',
      auth_key = JStr ''old'', auth_type = JStr ''bearer'', auth_scope = JStr ''organizer:result'',
      auth_expiry = ''03.11.2026, 14:38:20''\<rparr>"

definition example_api :: api where
  \<comment> \<open>a client made on 2026-11-03 at 14:38:07.123456, its token valid until 14:38:20\<close>
  "example_api =
     \<lparr>clock = 63929313487123456, api_cooldown = 63929313487123456, time_per_request = 333,
      the_credentials = example_credentials,
      credential_file = example_file,
      tournament_buffer = Map.empty, group_buffer = Map.empty, trace = []\<rparr>"

definition first_page :: response where
  "first_page = \<lparr>status_code = 206, body = JArr [JInt 1, JInt 2],
                  content_range = Some ''items 0-1/3'', latency = 120000\<rparr>"

definition second_page :: response where
  "second_page = \<lparr>status_code = 206, body = JArr [JInt 3],
                   content_range = Some ''items 2-2/3'', latency = 90000\<rparr>"

definition headerless_page :: response where
  \<comment> \<open>a successful response without a \<open>Content-Range\<close> header\<close>
  "headerless_page = \<lparr>status_code = 200, body = JArr [JInt 1, JInt 2],
                       content_range = None, latency = 120000\<rparr>"

subsection \<open>Rate limiting\<close>

fun send_times :: "event list \<Rightarrow> datetime list" where
  \<comment> \<open>the times the requests of a trace were sent at, in order\<close>
  "send_times [] = []"
| "send_times (Sent req t # es) = t # send_times es"
| "send_times (Saved f # es) = send_times es"

fun spaced :: "int \<Rightarrow> datetime list \<Rightarrow> bool" where
  \<comment> \<open>every time is at least \<open>gap\<close> after the one before it\<close>
  "spaced gap [] = True"
| "spaced gap [t] = True"
| "spaced gap (t # u # ts) = (t + gap \<le> u \<and> spaced gap (u # ts))"

definition rate_limited :: "api \<Rightarrow> bool" where
  \<comment> \<open>what every call keeps: the requests so far are 333 ms apart, and the next allowed
      time is 333 ms after the last of them\<close>
  "rate_limited s =
     (time_per_request s = 333 \<and> spaced 333000 (send_times (trace s)) \<and>
      (\<forall>t \<in> set (send_times (trace s)). t + 333000 \<le> api_cooldown s) \<and>
      (send_times (trace s) \<noteq> [] \<longrightarrow> api_cooldown s = last (send_times (trace s)) + 333000))"

definition stage_answer :: response where
  "stage_answer = \<lparr>status_code = 200, body = JObj [(''name'', JStr ''Playoffs'')],
                    content_range = None, latency = 10000\<rparr>"

subsection \<open>Token refresh\<close>

definition grant_answer :: response where
  "grant_answer =
     \<lparr>status_code = 200,
      body = JObj [(''access_token'', JStr ''new''), (''token_type'', JStr ''bearer''),
                   (''scope'', JStr ''organizer:result''), (''expires_in'', JInt 3600)],
      content_range = None, latency = 250000\<rparr>"

definition fresh_api :: api where
  \<comment> \<open>the example client an hour earlier: its token is valid for another hour\<close>
  "fresh_api = example_api\<lparr>clock := 63929309887123456, api_cooldown := 63929309887123456\<rparr>"

chapter \<open>Properties\<close>

section \<open>The standings table\<close>

lemma field_lengths_defined:
  assumes "\<forall>d \<in> set ds. d key \<noteq> None"
  shows "field_lengths key ds = Inr (map (\<lambda>d. length (case d key of None \<Rightarrow> [] | Some v \<Rightarrow> v)) ds)"
  using assms by (induction ds) (auto simp: getitem_def)

lemma py_max_nonempty: "ls \<noteq> [] \<Longrightarrow> py_max ls = Inr (Max (set ls))"
proof (cases ls)
  case Nil
  assume "ls \<noteq> []"
  with Nil show ?thesis by simp
next
  case (Cons x rest)
  have "fold max rest x = Max (set (x # rest))"
    by (rule Max.set_eq_fold [symmetric])
  with Cons show ?thesis by (simp add: py_max_def)
qed

lemma py_max_empty: "py_max [] = Inl ValueError"
  by (simp add: py_max_def)

lemma gather_paddings_defined:
  assumes "ds \<noteq> []" and "\<forall>d \<in> set ds. \<forall>k \<in> set keys. d k \<noteq> None"
  shows "gather_paddings keys ds p =
           Inr (\<lambda>k. if k \<in> set keys
                     then Some (Max (set (map (\<lambda>d. length (case d k of None \<Rightarrow> [] | Some v \<Rightarrow> v)) ds)))
                     else p k)"
  using assms
proof (induction keys arbitrary: p)
  case Nil
  then show ?case by simp
next
  case (Cons key keys)
  have fl: "field_lengths key ds = Inr (map (\<lambda>d. length (case d key of None \<Rightarrow> [] | Some v \<Rightarrow> v)) ds)"
    using Cons.prems by (intro field_lengths_defined) simp
  have mx: "py_max (map (\<lambda>d. length (case d key of None \<Rightarrow> [] | Some v \<Rightarrow> v)) ds)
              = Inr (Max (set (map (\<lambda>d. length (case d key of None \<Rightarrow> [] | Some v \<Rightarrow> v)) ds)))"
    using Cons.prems(1) by (intro py_max_nonempty) simp
  have ih: "gather_paddings keys ds q =
           Inr (\<lambda>k. if k \<in> set keys
                     then Some (Max (set (map (\<lambda>d. length (case d k of None \<Rightarrow> [] | Some v \<Rightarrow> v)) ds)))
                     else q k)" for q
    using Cons.IH [of q] Cons.prems by simp
  show ?case
    by (simp add: fl mx ih fun_eq_iff)
qed

lemma pad_entry_distinct:
  assumes "distinct keys" and "\<forall>k \<in> set keys. entry k \<noteq> None" and "\<forall>k \<in> set keys. paddings k \<noteq> None"
  shows "pad_entry paddings keys entry =
           Inr (\<lambda>k. if k \<in> set keys
                     then Some (pad_to (case paddings k of None \<Rightarrow> 0 | Some w \<Rightarrow> w)
                                       (case entry k of None \<Rightarrow> [] | Some v \<Rightarrow> v))
                     else entry k)"
  using assms
proof (induction keys arbitrary: entry)
  case Nil
  then show ?case by simp
next
  case (Cons key keys)
  obtain v where v: "entry key = Some v" using Cons.prems by auto
  obtain w where w: "paddings key = Some w" using Cons.prems by auto
  let ?e = "entry(key \<mapsto> v @ replicate (w - length v) CHR '' '')"
  have "pad_entry paddings keys ?e =
           Inr (\<lambda>k. if k \<in> set keys
                     then Some (pad_to (case paddings k of None \<Rightarrow> 0 | Some w \<Rightarrow> w)
                                       (case ?e k of None \<Rightarrow> [] | Some v \<Rightarrow> v))
                     else ?e k)"
    using Cons.prems by (intro Cons.IH) auto
  then show ?case
    using Cons.prems(1) by (auto simp: v w getitem_def pad_to_def fun_eq_iff)
qed

lemma pad_entries_distinct:
  assumes "distinct keys" and "\<forall>d \<in> set ds. \<forall>k \<in> set keys. d k \<noteq> None" and "\<forall>k \<in> set keys. paddings k \<noteq> None"
  shows "pad_entries paddings keys ds =
           Inr (map (\<lambda>entry k. if k \<in> set keys
                     then Some (pad_to (case paddings k of None \<Rightarrow> 0 | Some w \<Rightarrow> w)
                                       (case entry k of None \<Rightarrow> [] | Some v \<Rightarrow> v))
                     else entry k) ds)"
  using assms by (induction ds) (simp_all add: pad_entry_distinct)

lemma team_values_defined:
  assumes "\<forall>k \<in> set keys. team k \<noteq> None"
  shows "team_values team keys = Inr (map (\<lambda>k. case team k of None \<Rightarrow> [] | Some v \<Rightarrow> v) keys)"
  using assms by (induction keys) (auto simp: getitem_def)

lemma ranking_lines_defined:
  assumes "\<forall>d \<in> set ds. \<forall>k \<in> set keys. d k \<noteq> None"
  shows "ranking_lines ds keys =
           Inr (map (\<lambda>team. join_str '' | '' (map (\<lambda>k. case team k of None \<Rightarrow> [] | Some v \<Rightarrow> v) keys)) ds)"
  using assms by (induction ds) (simp_all add: get_ranking_str_def team_values_defined)

lemma get_rank_info_keys: "k \<in> set ranking_keys \<Longrightarrow> get_rank_info team k \<noteq> None"
  by (auto simp: ranking_keys_def get_rank_info_def Let_def)

lemma generate_ranking_text_nonempty:
  assumes "ranking \<noteq> []"
  shows "generate_ranking_text ranking =
     Inr (join_str newline
       (map (\<lambda>team. join_str '' | ''
               (map (\<lambda>key. pad_to (column_width key ranking) (natural_field key team)) ranking_keys))
            ranking))"
proof -
  let ?ds = "map get_rank_info ranking"
  have ne: "?ds \<noteq> []" using assms by simp
  have def: "\<forall>d \<in> set ?ds. \<forall>k \<in> set ranking_keys. d k \<noteq> None"
    using get_rank_info_keys by auto
  have dist: "distinct ranking_keys" by (simp add: ranking_keys_def)
  let ?p = "\<lambda>k. if k \<in> set ranking_keys
                     then Some (Max (set (map (\<lambda>d. length (case d k of None \<Rightarrow> [] | Some v \<Rightarrow> v)) ?ds)))
                     else Map.empty k"
  have g: "gather_paddings ranking_keys ?ds Map.empty = Inr ?p"
    using gather_paddings_defined [OF ne def] .
  have pdef: "\<forall>k \<in> set ranking_keys. ?p k \<noteq> None" by simp
  have pe: "pad_entries ?p ranking_keys ?ds = Inr (map (\<lambda>entry k. if k \<in> set ranking_keys
                     then Some (pad_to (case ?p k of None \<Rightarrow> 0 | Some w \<Rightarrow> w)
                                       (case entry k of None \<Rightarrow> [] | Some v \<Rightarrow> v))
                     else entry k) ?ds)" (is "_ = Inr ?padded")
    using pad_entries_distinct [OF dist def pdef] .
  have pd: "\<forall>d \<in> set ?padded. \<forall>k \<in> set ranking_keys. d k \<noteq> None" by auto
  have rl: "ranking_lines ?padded ranking_keys = 
     Inr (map (\<lambda>team. join_str '' | '' (map (\<lambda>k. case team k of None \<Rightarrow> [] | Some v \<Rightarrow> v) ranking_keys)) ?padded)"
    using ranking_lines_defined [OF pd] .
  have eq: "map (\<lambda>team. join_str '' | '' (map (\<lambda>k. case team k of None \<Rightarrow> [] | Some v \<Rightarrow> v) ranking_keys)) ?padded
     = map (\<lambda>team. join_str '' | ''
               (map (\<lambda>key. pad_to (column_width key ranking) (natural_field key team)) ranking_keys))
            ranking"
    by (simp add: comp_def natural_field_def column_width_def cong: map_cong)
  show ?thesis
    unfolding generate_ranking_text_def Let_def pad_dictionary_def g
    by (simp add: pe rl eq del: map_map)
qed

lemma natural_le_column_width:
  assumes "team \<in> set ranking"
  shows "length (natural_field key team) \<le> column_width key ranking"
  unfolding column_width_def using assms by (intro Max_ge) auto

text \<open>
  Claim C6. For a non-empty ranking, the rendered table is the rows joined by newlines,
  each row its four fields joined by \<open>" | "\<close>, and each field is the text
  \<open>__get_rank_info\<close> produced followed by spaces up to the greatest natural width of
  that field over all rows: every padded field is exactly that wide.
\<close>

theorem ranking_columns_padded:
  assumes "ranking \<noteq> []"
  shows "generate_ranking_text ranking =
           Inr (join_str newline
             (map (\<lambda>team. join_str '' | ''
                (map (\<lambda>key. natural_field key team
                          @ replicate (column_width key ranking - length (natural_field key team)) CHR '' '')
                     ranking_keys))
              ranking))
         \<and> ranking_keys = [''rank'', ''name'', ''win_loss'', ''diff'']
         \<and> (\<forall>team \<in> set ranking. \<forall>key \<in> set ranking_keys.
               length (natural_field key team
                         @ replicate (column_width key ranking - length (natural_field key team)) CHR '' '')
                 = column_width key ranking)"
proof -
  have "generate_ranking_text ranking =
     Inr (join_str newline
       (map (\<lambda>team. join_str '' | ''
               (map (\<lambda>key. pad_to (column_width key ranking) (natural_field key team)) ranking_keys))
            ranking))"
    using assms by (rule generate_ranking_text_nonempty)
  moreover have "length (natural_field key team
                         @ replicate (column_width key ranking - length (natural_field key team)) CHR '' '')
                 = column_width key ranking" if "team \<in> set ranking" for team key
    using natural_le_column_width [OF that, of key] by simp
  ultimately show ?thesis
    by (simp add: pad_to_def ranking_keys_def)
qed

theorem ranking_columns_padded_witness:
  "example_ranking \<noteq> []
   \<and> generate_ranking_text example_ranking
       = Inr (''#1  | RDV  | 10-2 | +15'' @ newline @ ''#12 | Blue | 3-9  | -7 '')
   \<and> column_width ''name'' example_ranking = 4"
proof -
  have ne: "example_ranking \<noteq> []" by (simp add: example_ranking_def)
  have eval: "join_str newline
             (map (\<lambda>team. join_str '' | ''
                (map (\<lambda>key. natural_field key team
                          @ replicate (column_width key example_ranking - length (natural_field key team)) CHR '' '')
                     ranking_keys))
              example_ranking)
       = ''#1  | RDV  | 10-2 | +15'' @ newline @ ''#12 | Blue | 3-9  | -7 ''"
    by code_simp
  have w: "column_width ''name'' example_ranking = 4" by code_simp
  from ranking_columns_padded [OF ne] eval ne w show ?thesis by simp
qed

text \<open>
  Claim C10. Rendering the empty ranking raises (the ValueError of \<open>max\<close> on an empty
  list); the rendering returns a text exactly for the non-empty rankings.
\<close>

theorem ranking_text_empty_raises:
  "generate_ranking_text [] = Inl ValueError
   \<and> ((\<exists>text. generate_ranking_text ranking = Inr text) = (ranking \<noteq> []))"
proof -
  have e: "generate_ranking_text [] = Inl ValueError"
    by (simp add: generate_ranking_text_def pad_dictionary_def ranking_keys_def py_max_def)
  show ?thesis
  proof (cases "ranking = []")
    case True
    with e show ?thesis by simp
  next
    case False
    with generate_ranking_text_nonempty [OF False] e show ?thesis by simp
  qed
qed

section \<open>Fixtures: forfeits\<close>

text \<open>
  Claim C4, as the source has it. When at least one of the two opponents carries the
  forfeit flag, each opponent with the flag shows \<open>FF\<close> and each opponent without it
  shows \<open>W\<close>, whatever the scores were; a pending match shows no result, and any other
  match shows these two marks around the dash, so no number is shown as a score.
  (When both forfeited, both show \<open>FF\<close>.)
\<close>

theorem forfeit_scores:
  assumes "opponents m = home # away # rest" and "forfeit home \<or> forfeit away"
  shows "\<exists>info. get_match_info m = Inr info
           \<and> info_score (home_team info) = StrScore (if forfeit home then ''FF'' else ''W'')
           \<and> info_score (away_team info) = StrScore (if forfeit away then ''FF'' else ''W'')
           \<and> get_match_string guild info =
               (if status m = ''pending''
                then display_name (home_team info) @ '' '' @ find_emote_id guild (home_team info)
                       @ '' vs '' @ find_emote_id guild (away_team info) @ '' '' @ display_name (away_team info)
                else display_name (home_team info) @ '' '' @ find_emote_id guild (home_team info)
                       @ '' '' @ (if forfeit home then ''FF'' else ''W'') @ ''-''
                       @ (if forfeit away then ''FF'' else ''W'') @ '' ''
                       @ find_emote_id guild (away_team info) @ '' '' @ display_name (away_team info))"
  using assms
  by (auto simp: get_match_info_def apply_match_forfeit_def team_info_of_def get_match_string_def
      Let_def str_score_def)

theorem forfeit_scores_witness:
  "opponents single_forfeit_match
     = [\<lparr>opp_participant = plain_team ''Ants'', forfeit = False, score = IntScore 3\<rparr>,
        \<lparr>opp_participant = plain_team ''Bees'', forfeit = True, score = IntScore 7\<rparr>]
   \<and> map_sum id (get_match_string []) (get_match_info single_forfeit_match)
       = Inr ''Ants :grey_question: W-FF :grey_question: Bees''"
proof -
  have o: "opponents single_forfeit_match
     = \<lparr>opp_participant = plain_team ''Ants'', forfeit = False, score = IntScore 3\<rparr>
       # \<lparr>opp_participant = plain_team ''Bees'', forfeit = True, score = IntScore 7\<rparr> # []"
    by (simp add: single_forfeit_match_def)
  have f: "forfeit \<lparr>opp_participant = plain_team ''Ants'', forfeit = False, score = IntScore 3\<rparr>
           \<or> forfeit \<lparr>opp_participant = plain_team ''Bees'', forfeit = True, score = IntScore 7\<rparr>"
    by simp
  from forfeit_scores [OF o f, of "[]"]
  obtain info where i: "get_match_info single_forfeit_match = Inr info"
    and s: "get_match_string [] info =
               (if status single_forfeit_match = ''pending''
                then display_name (home_team info) @ '' '' @ find_emote_id [] (home_team info)
                       @ '' vs '' @ find_emote_id [] (away_team info) @ '' '' @ display_name (away_team info)
                else display_name (home_team info) @ '' '' @ find_emote_id [] (home_team info)
                       @ '' '' @ ''W'' @ ''-'' @ ''FF'' @ '' ''
                       @ find_emote_id [] (away_team info) @ '' '' @ display_name (away_team info))"
    by auto
  have i': "get_match_info single_forfeit_match
             = Inr \<lparr>info_status = ''completed'',
                    home_team = \<lparr>info_name = ''Ants'', info_emote = None, info_short = None, info_score = StrScore ''W''\<rparr>,
                    away_team = \<lparr>info_name = ''Bees'', info_emote = None, info_short = None, info_score = StrScore ''FF''\<rparr>\<rparr>"
    by (simp add: get_match_info_def single_forfeit_match_def apply_match_forfeit_def
        team_info_of_def plain_team_def)
  from i i' have info: "info = \<lparr>info_status = ''completed'',
                    home_team = \<lparr>info_name = ''Ants'', info_emote = None, info_short = None, info_score = StrScore ''W''\<rparr>,
                    away_team = \<lparr>info_name = ''Bees'', info_emote = None, info_short = None, info_score = StrScore ''FF''\<rparr>\<rparr>"
    by simp
  have "get_match_string [] info = ''Ants :grey_question: W-FF :grey_question: Bees''"
    unfolding s unfolding info
    by (simp add: single_forfeit_match_def display_name_def find_emote_id_def get_emote_id_def
        team_name_to_emote_name_def)
  with i o show ?thesis by simp
qed

text \<open>
  The claim as stated also puts \<open>W\<close> on the side opposite to every forfeiting
  opponent. With both flags set the home side forfeited, and the away side shows
  \<open>FF\<close>, not \<open>W\<close>.
\<close>

theorem forfeit_both_sides_counterexample:
  "forfeit (opponents double_forfeit_match ! 0)
   \<and> map_sum id (\<lambda>info. (info_score (home_team info), info_score (away_team info)))
              (get_match_info double_forfeit_match)
       = Inr (StrScore ''FF'', StrScore ''FF'')
   \<and> map_sum id (get_match_string []) (get_match_info double_forfeit_match)
       = Inr ''Ants :grey_question: FF-FF :grey_question: Bees''"
  by (simp add: double_forfeit_match_def get_match_info_def apply_match_forfeit_def team_info_of_def
      plain_team_def get_match_string_def display_name_def find_emote_id_def get_emote_id_def
      team_name_to_emote_name_def str_score_def)


section \<open>Fixtures: emotes\<close>

lemma emote_name_loop_words:
  "emote_name_loop True acc s = acc @ concat (map capitalize_first (space_words s))"
  "emote_name_loop False acc s =
     acc @ takeWhile (\<lambda>x. x \<noteq> CHR '' '') s
         @ concat (map capitalize_first (space_words (dropWhile (\<lambda>x. x \<noteq> CHR '' '') s)))"
  by (induction s arbitrary: acc) (simp_all add: capitalize_first_def)

lemma emote_search_find:
  "emote_search guild wanted = map_option mention (find (\<lambda>e. lower (emoji_name e) = wanted) guild)"
  by (induction guild) simp_all


lemma team_name_to_emote_name_words:
  "team_name_to_emote_name team_name = concat (map capitalize_first (space_words team_name))"
  by (simp add: team_name_to_emote_name_def emote_name_loop_words)

lemma get_emote_id_find:
  "get_emote_id guild wanted = map_option mention (find (\<lambda>e. lower (emoji_name e) = lower wanted) guild)"
  by (simp add: get_emote_id_def emote_search_find)

lemma find_emote_id_chain:
  "find_emote_id guild team =
     (case (case info_emote team of
              None \<Rightarrow> None
            | Some configured \<Rightarrow> find (\<lambda>e. lower (emoji_name e) = lower configured) guild) of
        Some e \<Rightarrow> mention e
      | None \<Rightarrow>
          (case find (\<lambda>e. lower (emoji_name e) = lower (team_name_to_emote_name (info_name team))) guild of
             Some e \<Rightarrow> mention e
           | None \<Rightarrow> '':grey_question:''))"
  by (auto simp: find_emote_id_def get_emote_id_find split: option.splits)

text \<open>
  Claim C9. The emote of a team is looked up as the claim says: the configured name
  first, then the guessed name, then the placeholder, each name compared up to letter
  case (\<open>find_emote_id_chain\<close>), and the guess for \<open>"red devils"\<close> is \<open>"RedDevils"\<close>. The
  guess is not what the claim, and the docstring of \<open>__team_name_to_emote_name\<close>
  (``whitespaces are removed and following letters are capitalized''), say it is when
  the whitespace of the name is not the space character: the loop tests \<open>char == ' '\<close>
  only. For the team name \<open>"red\tdevils"\<close> the function returns \<open>"Red\tdevils"\<close>, with
  the tab kept and the letter after it in lower case, where the claim gives
  \<open>"RedDevils"\<close>; in a guild that has the emote \<open>reddevils\<close> the team \<open>"red devils"\<close> gets
  that emote and the team \<open>"red\tdevils"\<close> gets the placeholder.
\<close>

theorem emote_guess_keeps_tab:
  "team_name_to_emote_name ''red devils'' = ''RedDevils''
   \<and> team_name_to_emote_name (''red'' @ [CHR 0x09] @ ''devils'') = ''Red'' @ [CHR 0x09] @ ''devils''
   \<and> find_emote_id example_guild
        \<lparr>info_name = ''red devils'', info_emote = None, info_short = None, info_score = NoScore\<rparr>
       = ''<:reddevils:42>''
   \<and> find_emote_id example_guild
        \<lparr>info_name = ''red'' @ [CHR 0x09] @ ''devils'', info_emote = None, info_short = None,
         info_score = NoScore\<rparr>
       = '':grey_question:''"
  by code_simp

section \<open>Colour codes\<close>

























section \<open>The API client: pagination\<close>

lemma trace_respect [simp]: "trace (respect_rate_limits s) = trace s"
  by (simp add: respect_rate_limits_def Let_def)

lemma trace_sent [simp]: "trace (sent req s) = trace s @ [Sent req (clock s)]"
  by (simp add: sent_def)

lemma trace_received [simp]: "trace (received r s) = trace s"
  by (simp add: received_def)

lemma sent_requests_append [simp]: "sent_requests (es @ fs) = sent_requests es @ sent_requests fs"
  by (induction es rule: sent_requests.induct) simp_all

lemma range_of_page_request [simp]:
  "range_of (page_request url (AList.update ''Range'' v headers)) = Some v"
  by (simp add: range_of_def page_request_def update_conv')

lemma pages_loop_done:
  "\<not> page_start < total_page_num \<Longrightarrow>
   pages_loop parse url headers unit n page_start total_page_num page_list inbox s = (Inr page_list, inbox, s)"
  by (cases inbox) (simp_all add: pages_loop.simps)

lemma pages_loop_step:
  assumes "page_start < total_page_num" and "resp_ok r" and "body r = JArr xs"
    and "content_range r = Some h" and "parse unit h = Some (a, b, m)"
  shows "pages_loop parse url headers unit n page_start total_page_num page_list (r # rest) s =
           pages_loop parse url (AList.update ''Range'' (range_header unit page_start n) headers) unit n
             (b + 1) m (page_list @ xs) rest
             (received r (sent (page_request url (AList.update ''Range'' (range_header unit page_start n) headers))
                (respect_rate_limits s)))"
  using assms by (simp add: pages_loop.simps(2) py_extend_def Let_def)

lemma good_pageE:
  assumes "good_page parse unit r"
  obtains xs h a b m where "resp_ok r" "body r = JArr xs" "content_range r = Some h"
    "parse unit h = Some (a, b, m)" "page_items r = xs" "page_range parse unit r = Some (a, b, m)"
proof -
  from assms have ok: "resp_ok r" and arr: "is_array (body r)" and pr: "page_range parse unit r \<noteq> None"
    by (simp_all add: good_page_def)
  from arr obtain xs where xs: "body r = JArr xs" by (cases "body r") simp_all
  from pr obtain h where h: "content_range r = Some h"
    by (cases "content_range r") (simp_all add: page_range_def)
  with pr obtain a b m where p: "parse unit h = Some (a, b, m)"
    by (cases "parse unit h") (auto simp: page_range_def)
  from xs have "page_items r = xs" by (simp add: page_items_def)
  moreover from h p have "page_range parse unit r = Some (a, b, m)" by (simp add: page_range_def)
  ultimately show ?thesis using that ok xs h p by blast
qed

lemma pages_loop_run:
  assumes "page_start < total_page_num"
    and "\<forall>r \<in> set front. good_page parse unit r \<and> more_after parse unit r"
    and "good_page parse unit lst" and "reaches_total parse unit lst"
  shows "\<exists>s'. pages_loop parse url headers unit n page_start total_page_num page_list (front @ lst # rest) s
               = (Inr (page_list @ concat (map page_items (front @ [lst]))), rest, s')
             \<and> map range_of (sent_requests (trace s'))
               = map range_of (sent_requests (trace s))
                 @ map (\<lambda>start. Some (range_header unit start n))
                       (page_start # map (next_start parse unit) front)"
  using assms(1,2)
proof (induction front arbitrary: page_start total_page_num page_list headers s)
  case Nil
  from assms(3) obtain xs h a b m where g: "resp_ok lst" "body lst = JArr xs" "content_range lst = Some h"
    "parse unit h = Some (a, b, m)" "page_items lst = xs" "page_range parse unit lst = Some (a, b, m)"
    by (rule good_pageE)
  from assms(4) g(6) have stop: "\<not> b + 1 < m" by (simp add: reaches_total_def)
  show ?case
    by (simp add: pages_loop_step [where parse = parse and unit = unit, OF Nil.prems(1) g(1-4)] pages_loop_done [OF stop] g(5))
next
  case (Cons r front)
  from Cons.prems(2) have gp: "good_page parse unit r" and ma: "more_after parse unit r" by simp_all
  from gp obtain xs h a b m where g: "resp_ok r" "body r = JArr xs" "content_range r = Some h"
    "parse unit h = Some (a, b, m)" "page_items r = xs" "page_range parse unit r = Some (a, b, m)"
    by (rule good_pageE)
  from ma g(6) have go: "b + 1 < m" by (simp add: more_after_def)
  from g(6) have ns: "next_start parse unit r = b + 1" by (simp add: next_start_def)
  from Cons.prems(2) have rest: "\<forall>r \<in> set front. good_page parse unit r \<and> more_after parse unit r"
    by simp
  let ?h = "AList.update ''Range'' (range_header unit page_start n) headers"
  let ?s = "received r (sent (page_request url ?h) (respect_rate_limits s))"
  from Cons.IH [OF go rest, where headers = ?h and page_list = "page_list @ xs" and s = ?s]
  obtain s' where run: "pages_loop parse url ?h unit n (b + 1) m (page_list @ xs) (front @ lst # rest) ?s
               = (Inr ((page_list @ xs) @ concat (map page_items (front @ [lst]))), rest, s')"
    and tr: "map range_of (sent_requests (trace s'))
               = map range_of (sent_requests (trace ?s))
                 @ map (\<lambda>start. Some (range_header unit start n))
                       ((b + 1) # map (next_start parse unit) front)"
    by blast
  have "pages_loop parse url headers unit n page_start total_page_num page_list ((r # front) @ lst # rest) s
          = (Inr (page_list @ concat (map page_items ((r # front) @ [lst]))), rest, s')"
    using pages_loop_step [where parse = parse and unit = unit, OF Cons.prems(1) g(1-4), where url = url and headers = headers and n = n and page_list = page_list and rest = "front @ lst # rest" and s = s] run
    by (simp add: g(5))
  moreover have "map range_of (sent_requests (trace s'))
               = map range_of (sent_requests (trace s))
                 @ map (\<lambda>start. Some (range_header unit start n))
                       (page_start # map (next_start parse unit) (r # front))"
    using tr by (simp add: ns)
  ultimately show ?case by blast
qed

lemma authorize_False [simp]: "authorize False headers inbox s = (Inr headers, inbox, s)"
  by (simp add: authorize_def)

lemma request_get_pages_run:
  assumes "\<forall>r \<in> set front. good_page parse unit r \<and> more_after parse unit r"
    and "good_page parse unit lst \<and> reaches_total parse unit lst"
  shows "fetch_complete parse unit n (front @ [lst]) rest s
           (request_get_pages parse url headers False unit n (front @ lst # rest) s)"
proof -
  have "(0::int) < 1" by simp
  from pages_loop_run [OF this assms(1), where lst = lst and url = url
        and headers = "AList.update ''X-Api-Key'' (token (the_credentials s)) headers"
        and n = n and page_list = "[]" and rest = rest and s = s] assms(2)
  show ?thesis
    by (auto simp: request_get_pages_def fetch_complete_def)
qed



text \<open>
  Claim C1. Let a paginated fetch be answered by successful responses that each carry a
  list of items and a well-formed header \<open><unit> a-b/n\<close>, with \<open>b < n - 1\<close> on every
  response but the last and the next start \<open>b + 1\<close> reaching \<open>n\<close> on the last
  (\<open>b = n - 1\<close> for a header within its total). Then the client sends exactly one request
  per response, the first with a \<open>Range\<close> window starting at 0 and each later one
  starting at \<open>b + 1\<close> of the response before; after the last response it sends nothing
  more, takes no further answer, and returns the items of all pages in the order they
  arrived. This holds for \<open>__request_get_pages\<close> without authorization, and so for
  \<open>get_ranking\<close>, \<open>get_matches\<close> and \<open>get_groups\<close>, each with its unit.
\<close>

theorem paginated_fetch:
  assumes "\<forall>r \<in> set front. good_page parse unit r \<and> more_after parse unit r"
    and "good_page parse unit lst \<and> reaches_total parse unit lst"
  shows "fetch_complete parse unit n (front @ [lst]) rest s
           (request_get_pages parse url headers False unit n (front @ lst # rest) s)
       \<and> (unit = ''items'' \<longrightarrow>
            fetch_complete parse unit 50 (front @ [lst]) rest s
              (get_ranking parse tournament_id stage_id group_id (front @ lst # rest) s))
       \<and> (unit = ''matches'' \<longrightarrow>
            fetch_complete parse unit 50 (front @ [lst]) rest s
              (get_matches parse tournament_id stage_id group_id round_nums (front @ lst # rest) s))
       \<and> (unit = ''groups'' \<longrightarrow>
            fetch_complete parse unit 50 (front @ [lst]) rest s
              (get_groups parse tournament_id (front @ lst # rest) s))"
proof (intro conjI impI)
  note r = request_get_pages_run [OF assms]
  show "fetch_complete parse unit n (front @ [lst]) rest s
           (request_get_pages parse url headers False unit n (front @ lst # rest) s)"
    by (rule r)
  show "fetch_complete parse unit 50 (front @ [lst]) rest s
          (get_ranking parse tournament_id stage_id group_id (front @ lst # rest) s)"
    if u: "unit = ''items''"
    unfolding get_ranking_def u [symmetric] by (rule r)
  show "fetch_complete parse unit 50 (front @ [lst]) rest s
          (get_matches parse tournament_id stage_id group_id round_nums (front @ lst # rest) s)"
    if u: "unit = ''matches''"
    unfolding get_matches_def u [symmetric] by (rule r)
  show "fetch_complete parse unit 50 (front @ [lst]) rest s
          (get_groups parse tournament_id (front @ lst # rest) s)"
    if u: "unit = ''groups''"
    unfolding get_groups_def u [symmetric] by (rule r)
qed

theorem paginated_fetch_witness:
  "good_page decimal_range_parse ''items'' first_page
   \<and> more_after decimal_range_parse ''items'' first_page
   \<and> good_page decimal_range_parse ''items'' second_page
   \<and> reaches_total decimal_range_parse ''items'' second_page
   \<and> fst (get_ranking decimal_range_parse ''1'' ''2'' ''3'' [first_page, second_page] example_api)
       = Inr [JInt 1, JInt 2, JInt 3]
   \<and> map range_of (sent_requests (trace (snd (snd
         (get_ranking decimal_range_parse ''1'' ''2'' ''3'' [first_page, second_page] example_api)))))
       = [Some (JStr ''items=0-49''), Some (JStr ''items=2-51'')]"
proof -
  have p1: "decimal_range_parse ''items'' ''items 0-1/3'' = Some (0, 1, 3)"
    by (simp add: decimal_range_parse_def split_at_def read_number_def digit_value_def)
  have p2: "decimal_range_parse ''items'' ''items 2-2/3'' = Some (2, 2, 3)"
    by (simp add: decimal_range_parse_def split_at_def read_number_def digit_value_def)
  have f: "good_page decimal_range_parse ''items'' first_page \<and> more_after decimal_range_parse ''items'' first_page"
    by (simp add: good_page_def more_after_def page_range_def first_page_def resp_ok_def p1)
  then have 1: "\<forall>r \<in> set [first_page]. good_page decimal_range_parse ''items'' r
                  \<and> more_after decimal_range_parse ''items'' r" by simp
  have 2: "good_page decimal_range_parse ''items'' second_page
           \<and> reaches_total decimal_range_parse ''items'' second_page"
    by (simp add: good_page_def reaches_total_def page_range_def second_page_def resp_ok_def p2)
  from paginated_fetch [OF 1 2, where rest = "[]" and s = example_api]
  have fc: "fetch_complete decimal_range_parse ''items'' 50 [first_page, second_page] [] example_api
              (get_ranking decimal_range_parse ''1'' ''2'' ''3'' [first_page, second_page] example_api)"
    by simp
  have e1: "concat (map page_items [first_page, second_page]) = [JInt 1, JInt 2, JInt 3]"
    by (simp add: page_items_def first_page_def second_page_def)
  have e2: "map (\<lambda>start. Some (range_header ''items'' start 50))
                (0 # map (next_start decimal_range_parse ''items'') (butlast [first_page, second_page]))
            = [Some (JStr ''items=0-49''), Some (JStr ''items=2-51'')]"
    by (simp add: range_header_def next_start_def page_range_def first_page_def p1 str_int_def
        str_nat.simps digit_char_def)
  have e3: "sent_requests (trace example_api) = []" by (simp add: example_api_def)
  from fc have "fst (get_ranking decimal_range_parse ''1'' ''2'' ''3'' [first_page, second_page] example_api)
       = Inr (concat (map page_items [first_page, second_page]))
     \<and> map range_of (sent_requests (trace (snd (snd
         (get_ranking decimal_range_parse ''1'' ''2'' ''3'' [first_page, second_page] example_api)))))
       = map range_of (sent_requests (trace example_api))
         @ map (\<lambda>start. Some (range_header ''items'' start 50))
                (0 # map (next_start decimal_range_parse ''items'') (butlast [first_page, second_page]))"
    unfolding fetch_complete_def
    by (cases "get_ranking decimal_range_parse ''1'' ''2'' ''3'' [first_page, second_page] example_api") simp
  then show ?thesis unfolding e1 e2 e3 using f 2 by simp
qed



section \<open>The API client: a response without a range header\<close>

text \<open>
  A header that is present and does not parse ends the loop: the items gathered so far,
  with those of this response, are returned.
\<close>

lemma unparseable_content_range_stops:
  assumes "page_start < total_page_num" and "resp_ok r" and "body r = JArr xs"
    and "content_range r = Some h" and "parse unit h = None"
  shows "pages_loop parse url headers unit n page_start total_page_num page_list (r # rest) s
           = (Inr (page_list @ xs), rest,
              received r (sent (page_request url (AList.update ''Range'' (range_header unit page_start n) headers))
                (respect_rate_limits s)))"
  using assms by (simp add: pages_loop.simps(2) py_extend_def Let_def)



text \<open>
  Claim C2 at a response without the header. The source reads
  \<open>response.headers['Content-Range']\<close> before it looks at the parse result; on a
  successful response that has no such header this lookup raises KeyError, and the
  fetch returns nothing.
\<close>

theorem missing_content_range_raises:
  "resp_ok headerless_page \<and> content_range headerless_page = None
   \<and> fst (get_ranking parse tournament_id stage_id group_id (headerless_page # rest) s) = Inl KeyError
   \<and> fst (get_matches parse tournament_id stage_id group_id round_nums (headerless_page # rest) s) = Inl KeyError
   \<and> fst (get_groups parse tournament_id (headerless_page # rest) s) = Inl KeyError"
  by (simp add: get_ranking_def get_matches_def get_groups_def request_get_pages_def
      pages_loop.simps(2) headerless_page_def resp_ok_def py_extend_def Let_def)



section \<open>Time: the calendar\<close>

lemma leap_cases:
  "Suc p mod 400 = 0 \<Longrightarrow> Suc p mod 100 = 0"
  "Suc p mod 100 = 0 \<Longrightarrow> Suc p mod 4 = 0"
  by presburger+

lemma days_before_year_Suc:
  assumes "1 \<le> y"
  shows "days_before_year (Suc y) = days_before_year y + days_in_year y"
proof -
  obtain p where y: "y = Suc p" using assms by (cases y) auto
  define a b c where "a = p div 4" and "b = p div 100" and "c = p div 400"
  define l4 l100 l400 where "l4 = (Suc p mod 4 = 0)" and "l100 = (Suc p mod 100 = 0)"
    and "l400 = (Suc p mod 400 = 0)"
  have le: "b \<le> a" unfolding a_def b_def by (rule div_le_mono2) simp_all
  have imp: "l400 \<longrightarrow> l100" "l100 \<longrightarrow> l4"
    unfolding l4_def l100_def l400_def using leap_cases [of p] by blast+
  have d4: "Suc p div 4 = (if l4 then Suc a else a)"
    unfolding a_def l4_def by (rule div_Suc)
  have d100: "Suc p div 100 = (if l100 then Suc b else b)"
    unfolding b_def l100_def by (rule div_Suc)
  have d400: "Suc p div 400 = (if l400 then Suc c else c)"
    unfolding c_def l400_def by (rule div_Suc)
  have A: "days_before_year (Suc y) = Suc p * 365 + Suc p div 4 - Suc p div 100 + Suc p div 400"
    by (simp add: days_before_year_def y)
  have B: "days_before_year y = p * 365 + a - b + c"
    by (simp add: days_before_year_def y a_def b_def c_def)
  have C: "days_in_year y = (if l4 \<and> (\<not> l100 \<or> l400) then 366 else 365)"
    by (simp add: days_in_year_def is_leap_def y l4_def l100_def l400_def)
  show ?thesis
    unfolding A B C d4 d100 d400
    using le imp by (cases l4; cases l100; cases l400; simp)
qed

lemma split_year_inv:
  "split_year y n = (y', r) \<Longrightarrow> 1 \<le> y \<Longrightarrow>
     days_before_year y + n = days_before_year y' + r \<and> r < days_in_year y' \<and> y \<le> y'"
proof (induction y n rule: split_year.induct)
  case (1 y n)
  show ?case
  proof (cases "n < days_in_year y")
    case True
    with "1.prems" show ?thesis by (simp add: split_year.simps [of y n])
  next
    case False
    with "1.prems" have "split_year (Suc y) (n - days_in_year y) = (y', r)"
      by (simp add: split_year.simps [of y n])
    with "1.IH" [OF False] "1.prems"(2)
    have "days_before_year (Suc y) + (n - days_in_year y) = days_before_year y' + r \<and>
          r < days_in_year y' \<and> Suc y \<le> y'" by simp
    with False "1.prems"(2) show ?thesis
      by (simp add: days_before_year_Suc)
  qed
qed


lemma days_before_month_Suc: "1 \<le> m \<Longrightarrow> days_before_month y (Suc m) = days_before_month y m + days_in_month y m"
  by (simp add: days_before_month_def)

lemma days_before_month_1: "days_before_month y 1 = 0"
  by (simp add: days_before_month_def)

lemma days_before_month_13: "days_before_month y 13 = days_in_year y"
  by (simp add: days_before_month_def days_in_month_def days_in_year_def eval_nat_numeral)

lemma days_before_november: "days_before_month y 11 = (if is_leap y then 305 else 304)"
  by (simp add: days_before_month_def days_in_month_def eval_nat_numeral)

lemma split_month_inv:
  "split_month y m n = (m', r) \<Longrightarrow> 1 \<le> m \<Longrightarrow> m \<le> 12 \<Longrightarrow>
     days_before_month y m + n < days_in_year y \<Longrightarrow>
     days_before_month y m + n = days_before_month y m' + r \<and> r < days_in_month y m'
       \<and> m \<le> m' \<and> m' \<le> 12"
proof (induction y m n rule: split_month.induct)
  case (1 y m n)
  show ?case
  proof (cases "n < days_in_month y m")
    case True
    with "1.prems" show ?thesis by (simp add: split_month.simps [of y m n])
  next
    case False
    have m12: "m < 12"
    proof (rule ccontr)
      assume "\<not> m < 12"
      with "1.prems" have m: "m = 12" by simp
      have "days_before_month y 13 = days_before_month y 12 + days_in_month y 12"
        using days_before_month_Suc [of 12 y] by simp
      with False "1.prems"(4) days_before_month_13 [of y] m show False by simp
    qed
    with False "1.prems" have step: "split_month y (Suc m) (n - days_in_month y m) = (m', r)"
      by (simp add: split_month.simps [of y m n])
    have pre: "days_before_month y (Suc m) + (n - days_in_month y m) < days_in_year y"
      using False "1.prems" by (simp add: days_before_month_Suc)
    have "\<not> (12 \<le> m \<or> n < days_in_month y m)" using m12 False by simp
    from "1.IH" [OF this step _ _ pre] m12
    have "days_before_month y (Suc m) + (n - days_in_month y m) = days_before_month y m' + r \<and>
          r < days_in_month y m' \<and> Suc m \<le> m' \<and> m' \<le> 12" by simp
    with False "1.prems" show ?thesis by (simp add: days_before_month_Suc)
  qed
qed

lemma days_before_year_mono:
  assumes "1 \<le> a" and "a \<le> b"
  shows "days_before_year a \<le> days_before_year b"
  using assms(2,1)
proof (induction rule: dec_induct)
  case base
  show ?case by simp
next
  case (step n)
  then show ?case by (simp add: days_before_year_Suc)
qed

lemma split_year_unique:
  "1 \<le> y \<Longrightarrow> y \<le> y' \<Longrightarrow> r < days_in_year y' \<Longrightarrow>
   days_before_year y' + r = days_before_year y + n \<Longrightarrow> split_year y n = (y', r)"
proof (induction y n rule: split_year.induct)
  case (1 y n)
  show ?case
  proof (cases "n < days_in_year y")
    case True
    have "y' = y"
    proof (rule ccontr)
      assume "y' \<noteq> y"
      with "1.prems"(2) have "Suc y \<le> y'" by simp
      from days_before_year_mono [OF _ this] have "days_before_year (Suc y) \<le> days_before_year y'"
        by simp
      with "1.prems"(1,4) True show False by (simp add: days_before_year_Suc)
    qed
    with "1.prems"(4) True show ?thesis by (simp add: split_year.simps [of y n])
  next
    case False
    have "y' \<noteq> y"
    proof
      assume "y' = y"
      with "1.prems"(3,4) False show False by simp
    qed
    with "1.prems"(2) have le: "Suc y \<le> y'" by simp
    have eq: "days_before_year y' + r = days_before_year (Suc y) + (n - days_in_year y)"
      using "1.prems"(1,4) False by (simp add: days_before_year_Suc)
    from "1.IH" [OF False _ le "1.prems"(3) eq] False show ?thesis
      by (simp add: split_year.simps [of y n])
  qed
qed

lemma time_of_day_parts:
  fixes rest :: nat
  shows "((rest div 3600000000 * 60 + rest div 60000000 mod 60) * 60 + rest div 1000000 mod 60) * 1000000
           + rest mod 1000000 = rest"
proof -
  define a where "a = rest div 1000000"
  define b where "b = a div 60"
  have m: "rest div 60000000 = b"
    using div_mult2_eq [of rest 1000000 60] by (simp add: a_def b_def)
  have h: "rest div 3600000000 = b div 60"
    using div_mult2_eq [of rest 1000000 3600] div_mult2_eq [of a 60 60] by (simp add: a_def b_def)
  have 1: "b div 60 * 60 + b mod 60 = b" by simp
  have 2: "b * 60 + a mod 60 = a" by (simp add: b_def)
  have 3: "a * 1000000 + rest mod 1000000 = rest" by (simp add: a_def)
  show ?thesis unfolding m h a_def [symmetric] 1 2 3 ..
qed

lemma civil_of_fields:
  assumes "split_year 1 (nat t div 86400000000) = (y, doy)" and "split_month y 1 doy = (m, d)"
  shows "civil_of t = \<lparr>year = y, month = m, day = Suc d,
          hour = nat t mod 86400000000 div 3600000000,
          minute = (nat t mod 86400000000 div 60000000) mod 60,
          second = (nat t mod 86400000000 div 1000000) mod 60,
          microsecond = nat t mod 86400000000 mod 1000000\<rparr>"
  using assms by (simp add: civil_of_def Let_def)

lemma days_before_year_1: "days_before_year (Suc 0) = 0"
  by (simp add: days_before_year_def)

lemma days_before_month_Suc_0: "days_before_month y (Suc 0) = 0"
  by (simp add: days_before_month_def)

lemma civil_of_days:
  assumes "split_year 1 days = (y, doy)" and "split_month y 1 doy = (m, d)"
  shows "days_before_year y + days_before_month y m + d = days"
    and "1 \<le> y" and "1 \<le> m" and "m \<le> 12" and "d < days_in_month y m"
    and "days_before_year y \<le> days"
proof -
  from split_year_inv [OF assms(1)] have y: "days = days_before_year y + doy" "doy < days_in_year y" "1 \<le> y"
    by (simp_all add: days_before_year_1)
  from split_month_inv [OF assms(2)] y(2)
  have m: "doy = days_before_month y m + d" "d < days_in_month y m" "1 \<le> m" "m \<le> 12"
    by (simp_all add: days_before_month_Suc_0)
  from y m show "days_before_year y + days_before_month y m + d = days"
    and "1 \<le> y" and "1 \<le> m" and "m \<le> 12" and "d < days_in_month y m"
    and "days_before_year y \<le> days" by simp_all
qed

lemma of_civil_civil_of:
  assumes "0 \<le> t"
  shows "of_civil (civil_of t) = t"
proof -
  define us where "us = nat t"
  define days where "days = us div 86400000000"
  define rest where "rest = us mod 86400000000"
  define H M S U where "H = rest div 3600000000" and "M = rest div 60000000 mod 60"
    and "S = rest div 1000000 mod 60" and "U = rest mod 1000000"
  obtain y doy where sy: "split_year 1 days = (y, doy)" by (rule prod.exhaust)
  obtain m d where sm: "split_month y 1 doy = (m, d)" by (rule prod.exhaust)
  have c: "civil_of t = \<lparr>year = y, month = m, day = Suc d,
          hour = H, minute = M, second = S, microsecond = U\<rparr>"
    using civil_of_fields [of t y doy m d] sy sm
    by (simp add: us_def days_def rest_def H_def M_def S_def U_def)
  have d: "days_before_year y + days_before_month y m + d = days"
    using civil_of_days(1) [OF sy sm] .
  have tod: "((H * 60 + M) * 60 + S) * 1000000 + U = rest"
    unfolding H_def M_def S_def U_def by (rule time_of_day_parts)
  have "(((days * 24 + H) * 60 + M) * 60 + S) * 1000000 + U
          = days * 86400000000 + (((H * 60 + M) * 60 + S) * 1000000 + U)"
    by (simp add: algebra_simps)
  also have "\<dots> = days * 86400000000 + rest" by (simp only: tod)
  also have "\<dots> = us" by (simp add: days_def rest_def)
  finally have n: "(((days * 24 + H) * 60 + M) * 60 + S) * 1000000 + U = us" .
  have "of_civil (civil_of t)
          = int ((((days_before_year y + days_before_month y m + (Suc d - 1)) * 24 + H) * 60 + M) * 60 + S)
              * 1000000 + int U"
    unfolding c of_civil_def by (simp only: civil.select_convs)
  also have "\<dots> = int ((((days * 24 + H) * 60 + M) * 60 + S) * 1000000 + U)"
    unfolding diff_Suc_1 d by (simp only: of_nat_add of_nat_mult of_nat_numeral)
  also have "\<dots> = int us" by (simp only: n)
  also have "\<dots> = t" using assms by (simp add: us_def)
  finally show ?thesis .
qed

lemma days_before_year_10000: "days_before_year 10000 = 3652059"
  by (simp add: days_before_year_def)

lemma valid_civil_civil_of:
  assumes "0 \<le> t" and "t < max_datetime"
  shows "valid_civil (civil_of t)"
proof -
  define us where "us = nat t"
  define days where "days = us div 86400000000"
  define rest where "rest = us mod 86400000000"
  obtain y doy where sy: "split_year 1 days = (y, doy)" by (rule prod.exhaust)
  obtain m d where sm: "split_month y 1 doy = (m, d)" by (rule prod.exhaust)
  have c: "civil_of t = \<lparr>year = y, month = m, day = Suc d,
          hour = rest div 3600000000, minute = (rest div 60000000) mod 60,
          second = (rest div 1000000) mod 60, microsecond = rest mod 1000000\<rparr>"
    using civil_of_fields [of t y doy m d] sy sm by (simp add: us_def days_def rest_def)
  note f = civil_of_days [OF sy sm]
  have "us < 3652059 * 86400000000" using assms by (simp add: us_def max_datetime_def)
  then have dl: "days < 3652059" unfolding days_def by (simp add: div_less_iff_less_mult)
  have y: "y \<le> 9999"
  proof (rule ccontr)
    assume "\<not> y \<le> 9999"
    then have "10000 \<le> y" by simp
    from days_before_year_mono [OF _ this] have "3652059 \<le> days_before_year y"
      by (simp add: days_before_year_10000)
    with f(6) dl show False by simp
  qed
  have "rest < 86400000000" by (simp add: rest_def)
  then have h: "rest div 3600000000 < 24" by (simp add: div_less_iff_less_mult)
  show ?thesis
    unfolding c valid_civil_def using f(2-5) y h by simp
qed

lemma digit_cases: "d < 10 \<Longrightarrow> d = 0 \<or> d = 1 \<or> d = 2 \<or> d = 3 \<or> d = 4 \<or> d = 5 \<or> d = 6 \<or> d = 7 \<or> d = 8 \<or> d = (9::nat)"
  by arith

lemma digit_value_digit_char: "d < 10 \<Longrightarrow> digit_value (digit_char d) = Some d"
  using digit_cases [of d] by (auto simp: digit_value_def digit_char_def)

lemma read_pad2: "n < 100 \<Longrightarrow> read_digits 0 (pad2 n) = Some n"
  by (simp add: pad2_def digit_value_digit_char)


lemma read_pad4:
  assumes "n < 10000"
  shows "read_digits 0 (pad4 n) = Some n"
proof -
  define a where "a = n div 10"
  define b where "b = a div 10"
  define c where "c = b div 10"
  have h: "n div 100 = b" using div_mult2_eq [of n 10 10] by (simp add: a_def b_def)
  have k: "n div 1000 = c" using div_mult2_eq [of n 100 10] h by (simp add: c_def)
  have lt: "c < 10" using assms unfolding k [symmetric] by (simp add: div_less_iff_less_mult)
  then have c: "c mod 10 = c" by simp
  have 1: "10 * c + b mod 10 = b" by (simp add: c_def)
  have 2: "10 * b + a mod 10 = a" by (simp add: b_def)
  have 3: "10 * a + n mod 10 = n" by (simp add: a_def)
  have "read_digits 0 (pad4 n) = Some (10 * (10 * (10 * c + b mod 10) + a mod 10) + n mod 10)"
    unfolding pad4_def h k a_def [symmetric] c using lt by (simp add: digit_value_digit_char)
  then show ?thesis unfolding 1 2 3 .
qed

lemma length_pad [simp]: "length (pad2 n) = 2" "length (pad4 n) = 4"
  by (simp_all add: pad2_def pad4_def)

lemma days_in_month_le: "days_in_month y m \<le> 31"
  by (simp add: days_in_month_def)

lemma strptime_strftime:
  assumes "0 \<le> t" and "t < max_datetime"
  shows "strptime (strftime t) = Inr (t - t mod 1000000)"
proof -
  define c where "c = civil_of t"
  have v: "valid_civil c" unfolding c_def using assms by (rule valid_civil_civil_of)
  then have b: "day c < 100" "month c < 100" "year c < 10000" "hour c < 100" "minute c < 100"
    "second c < 100"
    using days_in_month_le [of "year c" "month c"] by (simp_all add: valid_civil_def)
  have s: "strftime t = pad2 (day c) @ ''.'' @ pad2 (month c) @ ''.'' @ pad4 (year c) @ '', ''
         @ pad2 (hour c) @ '':'' @ pad2 (minute c) @ '':'' @ pad2 (second c)"
    by (simp add: strftime_def c_def Let_def)
  have r: "read_fields [pad2 (day c), pad2 (month c), pad4 (year c), pad2 (hour c), pad2 (minute c),
             pad2 (second c)] = Some [day c, month c, year c, hour c, minute c, second c]"
    using b by (simp add: read_pad2 read_pad4)
  have v0: "valid_civil (c\<lparr>microsecond := 0\<rparr>)" using v by (simp add: valid_civil_def)
  have "of_civil (c\<lparr>microsecond := 0\<rparr>) = of_civil c - int (microsecond c)"
    by (simp add: of_civil_def)
  moreover have "of_civil c = t" unfolding c_def using assms(1) by (rule of_civil_civil_of)
  moreover have "int (microsecond c) = t mod 1000000"
  proof -
    have "microsecond c = nat t mod 86400000000 mod 1000000"
      by (simp add: c_def civil_of_def Let_def split: prod.splits)
    also have "\<dots> = nat t mod 1000000" by (simp add: mod_mod_cancel)
    finally show ?thesis using assms(1) by (simp add: zmod_int)
  qed
  ultimately have o: "of_civil (c\<lparr>microsecond := 0\<rparr>) = t - t mod 1000000" by simp
  have rec: "\<lparr>year = year c, month = month c, day = day c, hour = hour c, minute = minute c,
              second = second c, microsecond = 0\<rparr> = c\<lparr>microsecond := 0\<rparr>"
    by simp
  show ?thesis
    unfolding s strptime_def
    using r v0 o by (simp add: rec)
qed

lemma split_year_example: "split_year 1 739922 = (2026, 306)"
  by (rule split_year_unique) (simp_all add: days_in_year_def is_leap_def days_before_year_def)

lemma split_month_example: "split_month 2026 1 306 = (11, 2)"
  by (simp add: split_month.simps days_in_month_def is_leap_def)

lemma civil_of_example:
  assumes "nat t div 86400000000 = 739922"
  shows "civil_of t = \<lparr>year = 2026, month = 11, day = 3,
          hour = nat t mod 86400000000 div 3600000000,
          minute = (nat t mod 86400000000 div 60000000) mod 60,
          second = (nat t mod 86400000000 div 1000000) mod 60,
          microsecond = nat t mod 86400000000 mod 1000000\<rparr>"
  using civil_of_fields [of t 2026 306 11 2] assms split_year_example split_month_example
  by simp

lemma strftime_examples:
  "strftime 63929313500000000 = ''03.11.2026, 14:38:20''"
  "strftime 63929317077373456 = ''03.11.2026, 15:37:57''"
  "strftime 63929317077123456 = ''03.11.2026, 15:37:57''"
  by (simp_all add: strftime_def civil_of_example pad2_def pad4_def digit_char_def)

lemma strptime_example: "strptime ''03.11.2026, 14:38:20'' = Inr 63929313500000000"
  using strptime_strftime [of 63929313500000000]
  by (simp add: strftime_examples max_datetime_def)

lemma init_example: "init_api 63929313487123456 example_file = Inr example_api"
  by (simp add: init_api_def load_api_credentials_def example_file_def strptime_example
      example_api_def example_credentials_def)

section \<open>The API client: rate limiting\<close>

lemma send_times_append [simp]: "send_times (es @ fs) = send_times es @ send_times fs"
  by (induction es rule: send_times.induct) simp_all

lemma spaced_snoc:
  "spaced gap (ts @ [u]) = (spaced gap ts \<and> (ts \<noteq> [] \<longrightarrow> last ts + gap \<le> u))"
  by (induction gap ts rule: spaced.induct) auto

lemma rate_limit_facts:
  "api_cooldown s \<le> clock (respect_rate_limits s)"
  "clock s \<le> clock (respect_rate_limits s)"
  "api_cooldown (respect_rate_limits s) = clock (respect_rate_limits s) + time_per_request s * 1000"
  "time_per_request (respect_rate_limits s) = time_per_request s"
  by (simp_all add: respect_rate_limits_def Let_def)

lemma rate_limited_wait_send:
  assumes "rate_limited s"
  shows "rate_limited (sent req (respect_rate_limits s))"
proof -
  let ?g = "respect_rate_limits s"
  from assms have tpr: "time_per_request s = 333"
    and sp: "spaced 333000 (send_times (trace s))"
    and le: "\<forall>t \<in> set (send_times (trace s)). t + 333000 \<le> api_cooldown s"
    by (simp_all add: rate_limited_def)
  have c: "api_cooldown s \<le> clock ?g" by (rule rate_limit_facts)
  have cd: "api_cooldown ?g = clock ?g + 333000" using rate_limit_facts(3) [of s] tpr by simp
  have lst: "last (send_times (trace s)) + 333000 \<le> clock ?g" if "send_times (trace s) \<noteq> []"
    using le c that last_in_set [OF that] by fastforce
  have all: "\<forall>t \<in> set (send_times (trace s)). t + 333000 \<le> clock ?g + 333000"
    using le c by fastforce
  show ?thesis
    unfolding rate_limited_def
    using tpr sp lst all cd rate_limit_facts(4) [of s]
    by (simp add: sent_def spaced_snoc)
qed

lemma rate_limited_received: "rate_limited s \<Longrightarrow> rate_limited (received r s)"
  by (simp add: rate_limited_def received_def)

lemma rate_limited_http_send:
  "rate_limited s \<Longrightarrow> rate_limited (snd (snd (http_send req inbox (respect_rate_limits s))))"
  by (cases inbox) (simp_all add: http_send_def rate_limited_wait_send rate_limited_received)

lemma rate_limited_post_unauthorized:
  assumes "rate_limited s"
  shows "rate_limited (snd (snd (post_unauthorized url dat headers inbox s)))"
proof -
  obtain r i s' where h: "http_send \<lparr>req_method = POST, req_url = url,
      req_headers = AList.update ''X-Api-Key'' (token (the_credentials s)) headers, req_data = dat\<rparr>
      inbox (respect_rate_limits s) = (r, i, s')" by (rule prod_cases3)
  from rate_limited_http_send [OF assms, of _ inbox] h have "rate_limited s'"
    by (metis snd_conv)
  with h show ?thesis
    by (cases r) (simp_all add: post_unauthorized_def Let_def)
qed

lemma rate_limited_credentials:
  "rate_limited s \<Longrightarrow> rate_limited (s\<lparr>the_credentials := c\<rparr>)"
  by (simp add: rate_limited_def)

lemma rate_limited_update_api_credentials:
  assumes "rate_limited s"
  shows "rate_limited (snd (update_api_credentials resp s))"
  using assms
  by (auto simp: update_api_credentials_def Let_def rate_limited_def
      split: sum.splits option.splits)

lemma rate_limited_check_auth_token:
  assumes "rate_limited s"
  shows "rate_limited (snd (snd (check_auth_token inbox s)))"
proof (cases "has_api_token_expired s")
  case False
  with assms show ?thesis by (simp add: check_auth_token_def)
next
  case True
  obtain r i s' where p: "post_unauthorized token_url (Some (token_request_data s))
      [(''Content-Type'', JStr ''application/x-www-form-urlencoded'')] inbox s = (r, i, s')"
    by (rule prod_cases3)
  from rate_limited_post_unauthorized [OF assms, of token_url "Some (token_request_data s)"
      "[(''Content-Type'', JStr ''application/x-www-form-urlencoded'')]" inbox] p
  have s': "rate_limited s'" by simp
  show ?thesis
  proof (cases r)
    case (Inl e)
    with True p s' show ?thesis by (simp add: check_auth_token_def)
  next
    case (Inr resp)
    with True p rate_limited_update_api_credentials [OF s', of resp] show ?thesis
      by (auto simp add: check_auth_token_def split: prod.splits)
  qed
qed

lemma rate_limited_authorize:
  assumes "rate_limited s"
  shows "rate_limited (snd (snd (authorize a headers inbox s)))"
proof (cases a)
  case False
  with assms show ?thesis by (simp add: authorize_def)
next
  case True
  obtain r i s' where c: "check_auth_token inbox s = (r, i, s')" by (rule prod_cases3)
  with rate_limited_check_auth_token [OF assms, of inbox] have "rate_limited s'" by simp
  with True c show ?thesis by (cases r) (simp_all add: authorize_def)
qed

lemma rate_limited_request_post:
  assumes "rate_limited s"
  shows "rate_limited (snd (snd (request_post url dat headers a inbox s)))"
proof -
  obtain r i s' where c: "authorize a headers inbox s = (r, i, s')" by (rule prod_cases3)
  with rate_limited_authorize [OF assms, of a headers inbox] have s': "rate_limited s'" by simp
  show ?thesis
  proof (cases r)
    case (Inl e)
    with c s' show ?thesis by (simp add: request_post_def)
  next
    case (Inr h)
    with c rate_limited_post_unauthorized [OF s'] show ?thesis by (simp add: request_post_def)
  qed
qed

lemma rate_limited_request_get:
  assumes "rate_limited s"
  shows "rate_limited (snd (snd (request_get url headers a inbox s)))"
proof -
  obtain r i s' where c: "authorize a headers inbox s = (r, i, s')" by (rule prod_cases3)
  with rate_limited_authorize [OF assms, of a headers inbox] have s': "rate_limited s'" by simp
  show ?thesis
  proof (cases r)
    case (Inl e)
    with c s' show ?thesis by (simp add: request_get_def)
  next
    case (Inr h)
    obtain r2 i2 s2 where h: "http_send \<lparr>req_method = GET, req_url = url,
        req_headers = AList.update ''X-Api-Key'' (token (the_credentials s')) h, req_data = None\<rparr>
        i (respect_rate_limits s') = (r2, i2, s2)" by (rule prod_cases3)
    from rate_limited_http_send [OF s', of _ i] h have "rate_limited s2" by (metis snd_conv)
    with c Inr h show ?thesis
      by (cases r2) (simp_all add: request_get_def Let_def)
  qed
qed

lemma rate_limited_pages_loop:
  "rate_limited s \<Longrightarrow>
   rate_limited (snd (snd (pages_loop parse url headers unit n page_start total_page_num page_list inbox s)))"
proof (induction inbox arbitrary: headers page_start total_page_num page_list s)
  case Nil
  then show ?case
    by (simp add: pages_loop.simps(1) Let_def rate_limited_wait_send)
next
  case (Cons r rest)
  let ?s = "received r (sent (page_request url
      (AList.update ''Range'' (range_header unit page_start n) headers)) (respect_rate_limits s))"
  have s2: "rate_limited ?s"
    using Cons.prems by (intro rate_limited_received rate_limited_wait_send)
  show ?case
    using Cons.prems s2 Cons.IH [OF s2]
    by (simp add: pages_loop.simps(2) Let_def split: sum.splits option.splits prod.splits)
qed

lemma rate_limited_request_get_pages:
  assumes "rate_limited s"
  shows "rate_limited (snd (snd (request_get_pages parse url headers a unit n inbox s)))"
proof -
  obtain r i s' where c: "authorize a headers inbox s = (r, i, s')" by (rule prod_cases3)
  with rate_limited_authorize [OF assms, of a headers inbox] have s': "rate_limited s'" by simp
  show ?thesis
  proof (cases r)
    case (Inl e)
    with c s' show ?thesis by (simp add: request_get_pages_def)
  next
    case (Inr h)
    with c rate_limited_pages_loop [OF s'] show ?thesis
      by (simp add: request_get_pages_def Let_def)
  qed
qed

lemma rate_limited_buffers:
  "rate_limited s \<Longrightarrow> rate_limited (s\<lparr>tournament_buffer := tb\<rparr>)"
  "rate_limited s \<Longrightarrow> rate_limited (s\<lparr>group_buffer := gb\<rparr>)"
  by (simp_all add: rate_limited_def)

lemma rate_limited_get_tournament:
  assumes "rate_limited s"
  shows "rate_limited (snd (snd (get_tournament t inbox s)))"
proof (cases "tournament_buffer s t")
  case (Some v)
  with assms show ?thesis by (simp add: get_tournament_def)
next
  case None
  obtain r i s' where c: "request_get (api_root @ t) [] False inbox s = (r, i, s')"
    by (rule prod_cases3)
  with rate_limited_request_get [OF assms, of "api_root @ t" "[]" False inbox]
  have "rate_limited s'" by simp
  with None c show ?thesis
    by (cases r) (simp_all add: get_tournament_def rate_limited_buffers)
qed

lemma rate_limited_get_group_info:
  assumes "rate_limited s"
  shows "rate_limited (snd (snd (get_group_info parse t g inbox s)))"
proof -
  have *: "rate_limited (snd (snd (case find_group groups g t of
             Inl e \<Rightarrow> (Inl e, i, s')
           | Inr (found, groups') \<Rightarrow>
               (Inr found, i, s'\<lparr>group_buffer := (group_buffer s')(t \<mapsto> groups')\<rparr>))))"
    if "rate_limited s'" for groups i s'
    using that by (simp add: rate_limited_buffers split: sum.splits prod.splits)
  show ?thesis
  proof (cases "group_buffer s t")
    case (Some groups)
    with * [OF assms] show ?thesis by (simp add: get_group_info_def)
  next
    case None
    obtain r i s' where c: "get_groups parse t inbox s = (r, i, s')" by (rule prod_cases3)
    with rate_limited_request_get_pages [OF assms, of parse "api_root @ t @ ''/groups''" "[]" False
        "''groups''" 50 inbox]
    have s': "rate_limited s'" by (simp add: get_groups_def)
    show ?thesis
    proof (cases r)
      case (Inl e)
      with None c s' show ?thesis by (simp add: get_group_info_def)
    next
      case (Inr groups)
      with None c * [OF rate_limited_buffers(2) [OF s']] show ?thesis
        by (simp add: get_group_info_def)
    qed
  qed
qed

lemma rate_limited_run_op:
  "rate_limited (snd st) \<Longrightarrow> rate_limited (snd (run_op parse op st))"
  by (cases st; cases op)
     (simp_all add: get_ranking_def get_matches_def get_groups_def get_stage_def
       rate_limited_request_get_pages rate_limited_request_get rate_limited_request_post
       rate_limited_get_tournament rate_limited_get_group_info rate_limited_check_auth_token)

lemma rate_limited_run_ops:
  "rate_limited (snd st) \<Longrightarrow> rate_limited (snd (run_ops parse ops st))"
  unfolding run_ops_def
  by (induction ops arbitrary: st) (simp_all add: rate_limited_run_op)

lemma rate_limited_init:
  "init_api now f = Inr s \<Longrightarrow> rate_limited s"
  by (auto simp: init_api_def rate_limited_def split: sum.splits)

text \<open>
  Claim C8. Time is the clock of the model: it passes while the client sleeps and while
  it waits for a response, and a request starts at the moment the rate limiter lets it
  through. The rate limiter leaves the clock at or after the next allowed time and then
  sets the next allowed time to the clock plus \<open>time_per_request\<close> (333 ms). From a newly
  made client, after any sequence of calls (public methods and request functions, with
  or without authorization, returning or raising) and whatever the server answers, any
  two consecutive requests of the trace, pagination requests and token requests
  included, started at least 333 ms apart, and the next allowed time is 333 ms after
  the last of them.
\<close>

theorem requests_spaced:
  assumes "init_api now f = Inr s0" and "run_ops parse ops (inbox, s0) = (inbox', s')"
  shows "spaced 333000 (send_times (trace s'))
       \<and> (send_times (trace s') \<noteq> [] \<longrightarrow> api_cooldown s' = last (send_times (trace s')) + 333000)
       \<and> time_per_request s' = 333
       \<and> api_cooldown s \<le> clock (respect_rate_limits s)
       \<and> api_cooldown (respect_rate_limits s) = clock (respect_rate_limits s) + time_per_request s * 1000"
proof -
  from assms(1) have "rate_limited (snd (inbox, s0))" by (simp add: rate_limited_init)
  from rate_limited_run_ops [OF this, of parse ops] assms(2) have "rate_limited s'" by simp
  then show ?thesis by (simp add: rate_limited_def rate_limit_facts)
qed

lemma parse_examples:
  "decimal_range_parse ''items'' ''items 0-1/3'' = Some (0, 1, 3)"
  "decimal_range_parse ''items'' ''items 2-2/3'' = Some (2, 2, 3)"
  by (simp_all add: decimal_range_parse_def split_at_def read_number_def digit_value_def)

lemma run_example:
  "send_times (trace (snd (run_ops decimal_range_parse [GetRanking ''1'' ''2'' ''3'', GetStage ''1'' ''2'']
       ([first_page, second_page, stage_answer], example_api))))
     = [63929313487123456, 63929313487456456, 63929313487789456]"
  by (simp add: run_ops_def get_ranking_def get_stage_def request_get_pages_def request_get_def
      http_send_def pages_loop.simps respect_rate_limits_def sent_def received_def Let_def
      example_api_def first_page_def second_page_def stage_answer_def resp_ok_def py_extend_def
      parse_examples)

theorem requests_spaced_witness:
  "init_api 63929313487123456 example_file = Inr example_api
   \<and> send_times (trace (snd (run_ops decimal_range_parse [GetRanking ''1'' ''2'' ''3'', GetStage ''1'' ''2'']
       ([first_page, second_page, stage_answer], example_api))))
     = [63929313487123456, 63929313487456456, 63929313487789456]
   \<and> spaced 333000 (send_times (trace (snd (run_ops decimal_range_parse
       [GetRanking ''1'' ''2'' ''3'', GetStage ''1'' ''2'']
       ([first_page, second_page, stage_answer], example_api)))))"
proof -
  obtain i s' where r: "run_ops decimal_range_parse [GetRanking ''1'' ''2'' ''3'', GetStage ''1'' ''2'']
       ([first_page, second_page, stage_answer], example_api) = (i, s')"
    by (rule prod.exhaust)
  from requests_spaced [OF init_example r] have "spaced 333000 (send_times (trace s'))" by blast
  with r have "spaced 333000 (send_times (trace (snd (run_ops decimal_range_parse
       [GetRanking ''1'' ''2'' ''3'', GetStage ''1'' ''2'']
       ([first_page, second_page, stage_answer], example_api)))))" by simp
  with init_example run_example show ?thesis by blast
qed

section \<open>The API client: token refresh\<close>

lemma expired_iff:
  "has_api_token_expired s = (auth_expiry (the_credentials s) < clock s + 60000000)"
  by (auto simp: has_api_token_expired_def)

lemma authorize_valid:
  "\<not> has_api_token_expired s \<Longrightarrow>
   authorize True headers inbox s
     = (Inr (AList.update ''Authorization'' (auth_key (the_credentials s)) headers), inbox, s)"
  by (simp add: authorize_def check_auth_token_def)

lemma token_post:
  assumes "resp_ok r"
  shows "post_unauthorized token_url (Some (token_request_data s))
           [(''Content-Type'', JStr ''application/x-www-form-urlencoded'')] (r # rest) s
         = (Inr (body r), rest,
            received r
              (sent
                 \<lparr>req_method = POST, req_url = ''https://api.toornament.com/oauth/v2/token'',
                  req_headers = [(''Content-Type'', JStr ''application/x-www-form-urlencoded''),
                                 (''X-Api-Key'', token (the_credentials s))],
                  req_data = Some [(''grant_type'', JStr ''client_credentials''),
                                   (''scope'', JStr ''organizer:participant organizer:result''),
                                   (''client_id'', client_id (the_credentials s)),
                                   (''client_secret'', client_secret (the_credentials s))]\<rparr>
                 (respect_rate_limits s)))"
  using assms
  by (simp add: post_unauthorized_def http_send_def Let_def token_url_def
      respect_rate_limits_def token_request_data_def)

lemma update_api_credentials_grant:
  assumes "json_getitem resp ''access_token'' = Inr tok"
    and "json_getitem resp ''token_type'' = Inr ty"
    and "json_getitem resp ''scope'' = Inr sc"
    and "json_getitem resp ''expires_in'' = Inr x" and "json_int x = Some n"
    and "add_seconds (clock s) (n - 10) = Inr e"
  shows "update_api_credentials resp s
         = (Inr (),
            s\<lparr>credential_file :=
                 \<lparr>client_id = client_id (the_credentials s), client_secret = client_secret (the_credentials s),
                  token = token (the_credentials s), auth_key = tok, auth_type = ty, auth_scope = sc,
                  auth_expiry = strftime e\<rparr>,
               trace := trace s @ [Saved
                 \<lparr>client_id = client_id (the_credentials s), client_secret = client_secret (the_credentials s),
                  token = token (the_credentials s), auth_key = tok, auth_type = ty, auth_scope = sc,
                  auth_expiry = strftime e\<rparr>],
               the_credentials :=
                 (the_credentials s)\<lparr>auth_key := tok, auth_type := ty, auth_scope := sc, auth_expiry := e\<rparr>\<rparr>)"
  using assms by (simp add: update_api_credentials_def Let_def)

lemma add_seconds_Inr:
  "add_seconds t n = Inr e \<Longrightarrow> e = t + n * 1000000 \<and> 0 \<le> e \<and> e < max_datetime"
  by (auto simp: add_seconds_def Let_def split: if_splits)

lemma request_functions_authorized:
  assumes "authorize True headers inbox s = (Inr headers', inbox', s')"
  shows "request_get url headers True inbox s = request_get url headers' False inbox' s'"
    and "request_post url dat headers True inbox s = request_post url dat headers' False inbox' s'"
    and "request_get_pages parse url headers True unit n inbox s
           = request_get_pages parse url headers' False unit n inbox' s'"
  using assms by (simp_all add: request_get_def request_post_def request_get_pages_def authorize_def)

lemma authorize_refresh:
  assumes "has_api_token_expired s" and "resp_ok r"
    and "json_getitem (body r) ''access_token'' = Inr tok"
    and "json_getitem (body r) ''token_type'' = Inr ty"
    and "json_getitem (body r) ''scope'' = Inr sc"
    and "json_getitem (body r) ''expires_in'' = Inr (JInt n)"
    and "add_seconds (clock (respect_rate_limits s) + int (latency r)) (n - 10) = Inr e"
  shows "\<exists>s'. authorize True headers (r # rest) s = (Inr (AList.update ''Authorization'' tok headers), rest, s')
           \<and> trace s' = trace s @
                [Sent
                   \<lparr>req_method = POST, req_url = ''https://api.toornament.com/oauth/v2/token'',
                    req_headers = [(''Content-Type'', JStr ''application/x-www-form-urlencoded''),
                                   (''X-Api-Key'', token (the_credentials s))],
                    req_data = Some [(''grant_type'', JStr ''client_credentials''),
                                     (''scope'', JStr ''organizer:participant organizer:result''),
                                     (''client_id'', client_id (the_credentials s)),
                                     (''client_secret'', client_secret (the_credentials s))]\<rparr>
                   (clock (respect_rate_limits s)),
                 Saved (credential_file s')]
           \<and> clock s' = clock (respect_rate_limits s) + int (latency r)
           \<and> the_credentials s'
                = (the_credentials s)\<lparr>auth_key := tok, auth_type := ty, auth_scope := sc, auth_expiry := e\<rparr>
           \<and> credential_file s'
                = \<lparr>client_id = client_id (the_credentials s), client_secret = client_secret (the_credentials s),
                   token = token (the_credentials s), auth_key = tok, auth_type = ty, auth_scope = sc,
                   auth_expiry = strftime e\<rparr>"
proof -
  let ?req = "\<lparr>req_method = POST, req_url = ''https://api.toornament.com/oauth/v2/token'',
               req_headers = [(''Content-Type'', JStr ''application/x-www-form-urlencoded''),
                              (''X-Api-Key'', token (the_credentials s))],
               req_data = Some [(''grant_type'', JStr ''client_credentials''),
                                (''scope'', JStr ''organizer:participant organizer:result''),
                                (''client_id'', client_id (the_credentials s)),
                                (''client_secret'', client_secret (the_credentials s))]\<rparr>"
  let ?s1 = "received r (sent ?req (respect_rate_limits s))"
  have c: "clock ?s1 = clock (respect_rate_limits s) + int (latency r)"
    by (simp add: received_def sent_def)
  have t: "trace ?s1 = trace s @ [Sent ?req (clock (respect_rate_limits s))]"
    by (simp add: received_def sent_def respect_rate_limits_def Let_def)
  have k: "the_credentials ?s1 = the_credentials s"
    by (simp add: received_def sent_def respect_rate_limits_def Let_def)
  from assms(7) have a: "add_seconds (clock ?s1) (n - 10) = Inr e" by (simp only: c)
  have ji: "json_int (JInt n) = Some n" by (simp add: json_int_def)
  note u = update_api_credentials_grant [OF assms(3-6) ji a]
  show ?thesis
    using assms(1)
    by (simp add: authorize_def check_auth_token_def token_post [OF assms(2)] u t c k)
qed


text \<open>
  Claim C3. Every request function begins, when called with authorization, with the
  block modelled by \<open>authorize True\<close>. The token counts as expired exactly when the
  stored expiry is less than 60 seconds after the clock. When it is not expired, nothing
  is sent and nothing changes; the stored token is attached. When it is expired and the
  token endpoint answers with a grant, exactly one request is sent: a POST to
  \<open>https://api.toornament.com/oauth/v2/token\<close> whose form data are the grant type
  \<open>client_credentials\<close>, the scope \<open>organizer:participant organizer:result\<close>, the client
  id and the client secret, with the content type of a form and the API key as headers
  and without an \<open>Authorization\<close> header. The stored token, type and scope are replaced
  by those of the grant; the stored expiry is the clock at that moment plus
  \<open>expires_in - 10\<close> seconds, that is 10 seconds before clock plus \<open>expires_in\<close>; the
  credentials are written to the file with the expiry as text; and only then does the
  original request go on, with the new token attached, as if called without
  authorization from the refreshed state. The variables \<open>fresh\<close> and \<open>s\<close> stand for two
  independent states.
\<close>

theorem token_refresh:
  "has_api_token_expired fresh = (auth_expiry (the_credentials fresh) < clock fresh + 60000000)
   \<and> (\<not> has_api_token_expired fresh \<longrightarrow>
        authorize True headers inbox fresh
          = (Inr (AList.update ''Authorization'' (auth_key (the_credentials fresh)) headers), inbox, fresh))
   \<and> (has_api_token_expired s \<and> resp_ok r
        \<and> json_getitem (body r) ''access_token'' = Inr tok
        \<and> json_getitem (body r) ''token_type'' = Inr ty
        \<and> json_getitem (body r) ''scope'' = Inr sc
        \<and> json_getitem (body r) ''expires_in'' = Inr (JInt n)
        \<and> add_seconds (clock (respect_rate_limits s) + int (latency r)) (n - 10) = Inr e \<longrightarrow>
        (\<exists>s'. authorize True headers (r # rest) s
                 = (Inr (AList.update ''Authorization'' tok headers), rest, s')
            \<and> trace s' = trace s @
                 [Sent
                    \<lparr>req_method = POST, req_url = ''https://api.toornament.com/oauth/v2/token'',
                     req_headers = [(''Content-Type'', JStr ''application/x-www-form-urlencoded''),
                                    (''X-Api-Key'', token (the_credentials s))],
                     req_data = Some [(''grant_type'', JStr ''client_credentials''),
                                      (''scope'', JStr ''organizer:participant organizer:result''),
                                      (''client_id'', client_id (the_credentials s)),
                                      (''client_secret'', client_secret (the_credentials s))]\<rparr>
                    (clock (respect_rate_limits s)),
                  Saved (credential_file s')]
            \<and> auth_key (the_credentials s') = tok
            \<and> auth_expiry (the_credentials s') = clock s' + (n - 10) * 1000000
            \<and> auth_expiry (the_credentials s') + 10 * 1000000 = clock s' + n * 1000000
            \<and> auth_key (credential_file s') = tok
            \<and> auth_expiry (credential_file s') = strftime (auth_expiry (the_credentials s'))
            \<and> the_credentials s'
                 = (the_credentials s)\<lparr>auth_key := tok, auth_type := ty, auth_scope := sc,
                      auth_expiry := clock (respect_rate_limits s) + int (latency r) + (n - 10) * 1000000\<rparr>
            \<and> credential_file s'
                 = \<lparr>client_id = client_id (the_credentials s), client_secret = client_secret (the_credentials s),
                    token = token (the_credentials s), auth_key = tok, auth_type = ty, auth_scope = sc,
                    auth_expiry = strftime (clock (respect_rate_limits s) + int (latency r) + (n - 10) * 1000000)\<rparr>
            \<and> request_get url headers True (r # rest) s
                 = request_get url (AList.update ''Authorization'' tok headers) False rest s'
            \<and> request_post url dat headers True (r # rest) s
                 = request_post url dat (AList.update ''Authorization'' tok headers) False rest s'
            \<and> request_get_pages parse url headers True unit items_per_request (r # rest) s
                 = request_get_pages parse url (AList.update ''Authorization'' tok headers) False unit
                     items_per_request rest s'))"
proof (intro conjI impI)
  show "has_api_token_expired fresh = (auth_expiry (the_credentials fresh) < clock fresh + 60000000)"
    by (rule expired_iff)
  show "authorize True headers inbox fresh
          = (Inr (AList.update ''Authorization'' (auth_key (the_credentials fresh)) headers), inbox, fresh)"
    if "\<not> has_api_token_expired fresh"
    using that by (rule authorize_valid)
next
  assume h: "has_api_token_expired s \<and> resp_ok r
        \<and> json_getitem (body r) ''access_token'' = Inr tok
        \<and> json_getitem (body r) ''token_type'' = Inr ty
        \<and> json_getitem (body r) ''scope'' = Inr sc
        \<and> json_getitem (body r) ''expires_in'' = Inr (JInt n)
        \<and> add_seconds (clock (respect_rate_limits s) + int (latency r)) (n - 10) = Inr e"
  then have a: "add_seconds (clock (respect_rate_limits s) + int (latency r)) (n - 10) = Inr e"
    by blast
  let ?req = "\<lparr>req_method = POST, req_url = ''https://api.toornament.com/oauth/v2/token'',
               req_headers = [(''Content-Type'', JStr ''application/x-www-form-urlencoded''),
                              (''X-Api-Key'', token (the_credentials s))],
               req_data = Some [(''grant_type'', JStr ''client_credentials''),
                                (''scope'', JStr ''organizer:participant organizer:result''),
                                (''client_id'', client_id (the_credentials s)),
                                (''client_secret'', client_secret (the_credentials s))]\<rparr>"
  from h authorize_refresh [of s r tok ty sc n e headers rest]
  obtain s' where s': "authorize True headers (r # rest) s
        = (Inr (AList.update ''Authorization'' tok headers), rest, s')"
    "trace s' = trace s @ [Sent ?req (clock (respect_rate_limits s)), Saved (credential_file s')]"
    "clock s' = clock (respect_rate_limits s) + int (latency r)"
    "the_credentials s'
       = (the_credentials s)\<lparr>auth_key := tok, auth_type := ty, auth_scope := sc, auth_expiry := e\<rparr>"
    "credential_file s'
       = \<lparr>client_id = client_id (the_credentials s), client_secret = client_secret (the_credentials s),
          token = token (the_credentials s), auth_key = tok, auth_type = ty, auth_scope = sc,
          auth_expiry = strftime e\<rparr>"
    by blast
  from add_seconds_Inr [OF a]
  have e: "e = clock (respect_rate_limits s) + int (latency r) + (n - 10) * 1000000" by simp
  note f = request_functions_authorized [OF s'(1)]
  show "\<exists>s'. authorize True headers (r # rest) s
                 = (Inr (AList.update ''Authorization'' tok headers), rest, s')
            \<and> trace s' = trace s @
                 [Sent
                    \<lparr>req_method = POST, req_url = ''https://api.toornament.com/oauth/v2/token'',
                     req_headers = [(''Content-Type'', JStr ''application/x-www-form-urlencoded''),
                                    (''X-Api-Key'', token (the_credentials s))],
                     req_data = Some [(''grant_type'', JStr ''client_credentials''),
                                      (''scope'', JStr ''organizer:participant organizer:result''),
                                      (''client_id'', client_id (the_credentials s)),
                                      (''client_secret'', client_secret (the_credentials s))]\<rparr>
                    (clock (respect_rate_limits s)),
                  Saved (credential_file s')]
            \<and> auth_key (the_credentials s') = tok
            \<and> auth_expiry (the_credentials s') = clock s' + (n - 10) * 1000000
            \<and> auth_expiry (the_credentials s') + 10 * 1000000 = clock s' + n * 1000000
            \<and> auth_key (credential_file s') = tok
            \<and> auth_expiry (credential_file s') = strftime (auth_expiry (the_credentials s'))
            \<and> the_credentials s'
                 = (the_credentials s)\<lparr>auth_key := tok, auth_type := ty, auth_scope := sc,
                      auth_expiry := clock (respect_rate_limits s) + int (latency r) + (n - 10) * 1000000\<rparr>
            \<and> credential_file s'
                 = \<lparr>client_id = client_id (the_credentials s), client_secret = client_secret (the_credentials s),
                    token = token (the_credentials s), auth_key = tok, auth_type = ty, auth_scope = sc,
                    auth_expiry = strftime (clock (respect_rate_limits s) + int (latency r) + (n - 10) * 1000000)\<rparr>
            \<and> request_get url headers True (r # rest) s
                 = request_get url (AList.update ''Authorization'' tok headers) False rest s'
            \<and> request_post url dat headers True (r # rest) s
                 = request_post url dat (AList.update ''Authorization'' tok headers) False rest s'
            \<and> request_get_pages parse url headers True unit items_per_request (r # rest) s
                 = request_get_pages parse url (AList.update ''Authorization'' tok headers) False unit
                     items_per_request rest s'"
  proof (intro exI [of _ s'] conjI)
    show "auth_key (the_credentials s') = tok" using s'(4) by simp
    show "auth_expiry (the_credentials s') = clock s' + (n - 10) * 1000000"
      using s'(3,4) e by simp
    show "auth_expiry (the_credentials s') + 10 * 1000000 = clock s' + n * 1000000"
      using s'(3,4) e by (simp add: algebra_simps)
    show "auth_key (credential_file s') = tok" using s'(5) by simp
    show "auth_expiry (credential_file s') = strftime (auth_expiry (the_credentials s'))"
      using s'(4,5) by simp
    show "the_credentials s'
                 = (the_credentials s)\<lparr>auth_key := tok, auth_type := ty, auth_scope := sc,
                      auth_expiry := clock (respect_rate_limits s) + int (latency r) + (n - 10) * 1000000\<rparr>"
      using s'(4) e by simp
    show "credential_file s'
                 = \<lparr>client_id = client_id (the_credentials s), client_secret = client_secret (the_credentials s),
                    token = token (the_credentials s), auth_key = tok, auth_type = ty, auth_scope = sc,
                    auth_expiry = strftime (clock (respect_rate_limits s) + int (latency r) + (n - 10) * 1000000)\<rparr>"
      using s'(5) e by simp
  qed (fact s'(1) s'(2) f)+
qed

lemma grant_items:
  "json_getitem (body grant_answer) ''access_token'' = Inr (JStr ''new'')"
  "json_getitem (body grant_answer) ''token_type'' = Inr (JStr ''bearer'')"
  "json_getitem (body grant_answer) ''scope'' = Inr (JStr ''organizer:result'')"
  "json_getitem (body grant_answer) ''expires_in'' = Inr (JInt 3600)"
  by (simp_all add: grant_answer_def json_getitem_def)

theorem token_refresh_witness:
  "\<not> has_api_token_expired fresh_api
   \<and> authorize True [] [grant_answer] fresh_api
       = (Inr [(''Authorization'', JStr ''old'')], [grant_answer], fresh_api)
   \<and> has_api_token_expired example_api
   \<and> fst (authorize True [] [grant_answer] example_api) = Inr [(''Authorization'', JStr ''new'')]
   \<and> trace (snd (snd (authorize True [] [grant_answer] example_api)))
       = [Sent
            \<lparr>req_method = POST, req_url = ''https://api.toornament.com/oauth/v2/token'',
              req_headers = [(''Content-Type'', JStr ''application/x-www-form-urlencoded''),
                             (''X-Api-Key'', JStr ''key'')],
              req_data = Some [(''grant_type'', JStr ''client_credentials''),
                               (''scope'', JStr ''organizer:participant organizer:result''),
                               (''client_id'', JStr ''id''),
                               (''client_secret'', JStr ''secret'')]\<rparr>
            63929313487123456,
          Saved
            \<lparr>client_id = JStr ''id'', client_secret = JStr ''secret'', token = JStr ''key'',
              auth_key = JStr ''new'', auth_type = JStr ''bearer'', auth_scope = JStr ''organizer:result'',
              auth_expiry = ''03.11.2026, 15:37:57''\<rparr>]
   \<and> the_credentials (snd (snd (authorize True [] [grant_answer] example_api)))
       = \<lparr>client_id = JStr ''id'', client_secret = JStr ''secret'', token = JStr ''key'',
          auth_key = JStr ''new'', auth_type = JStr ''bearer'', auth_scope = JStr ''organizer:result'',
          auth_expiry = 63929317077373456\<rparr>
   \<and> credential_file (snd (snd (authorize True [] [grant_answer] example_api)))
       = \<lparr>client_id = JStr ''id'', client_secret = JStr ''secret'', token = JStr ''key'',
              auth_key = JStr ''new'', auth_type = JStr ''bearer'', auth_scope = JStr ''organizer:result'',
              auth_expiry = ''03.11.2026, 15:37:57''\<rparr>"
proof -
  have nf: "\<not> has_api_token_expired fresh_api"
    by (simp add: has_api_token_expired_def fresh_api_def example_api_def example_credentials_def)
  have ex: "has_api_token_expired example_api"
    by (simp add: has_api_token_expired_def example_api_def example_credentials_def)
  have ok: "resp_ok grant_answer" by (simp add: resp_ok_def grant_answer_def)
  have c0: "clock (respect_rate_limits example_api) = 63929313487123456"
    by (simp add: respect_rate_limits_def example_api_def Let_def)
  have ck: "clock (respect_rate_limits example_api) + int (latency grant_answer) = 63929313487373456"
    by (simp add: respect_rate_limits_def example_api_def grant_answer_def Let_def)
  have ad: "add_seconds (clock (respect_rate_limits example_api) + int (latency grant_answer)) (3600 - 10)
              = Inr 63929317077373456"
    unfolding ck by (simp add: add_seconds_def max_datetime_def)
  have ev: "clock (respect_rate_limits example_api) + int (latency grant_answer) + (3600 - 10) * 1000000
              = 63929317077373456"
    unfolding ck by simp
  note t = token_refresh [of fresh_api "[]" "[grant_answer]" example_api grant_answer
      "JStr ''new''" "JStr ''bearer''" "JStr ''organizer:result''" 3600 63929317077373456 "[]"]
  from t nf have 1: "authorize True [] [grant_answer] fresh_api
       = (Inr (AList.update ''Authorization'' (auth_key (the_credentials fresh_api)) []),
          [grant_answer], fresh_api)" by blast
  have k: "auth_key (the_credentials fresh_api) = JStr ''old''"
    by (simp add: fresh_api_def example_api_def example_credentials_def)
  from t ex ok grant_items ad
  obtain s' where s': "authorize True [] [grant_answer] example_api
                 = (Inr (AList.update ''Authorization'' (JStr ''new'') []), [], s')"
    "trace s' = trace example_api @
       [Sent
          \<lparr>req_method = POST, req_url = ''https://api.toornament.com/oauth/v2/token'',
           req_headers = [(''Content-Type'', JStr ''application/x-www-form-urlencoded''),
                          (''X-Api-Key'', token (the_credentials example_api))],
           req_data = Some [(''grant_type'', JStr ''client_credentials''),
                            (''scope'', JStr ''organizer:participant organizer:result''),
                            (''client_id'', client_id (the_credentials example_api)),
                            (''client_secret'', client_secret (the_credentials example_api))]\<rparr>
          (clock (respect_rate_limits example_api)),
        Saved (credential_file s')]"
    "the_credentials s'
       = (the_credentials example_api)\<lparr>auth_key := JStr ''new'', auth_type := JStr ''bearer'',
            auth_scope := JStr ''organizer:result'',
            auth_expiry := clock (respect_rate_limits example_api) + int (latency grant_answer)
                             + (3600 - 10) * 1000000\<rparr>"
    "credential_file s'
       = \<lparr>client_id = client_id (the_credentials example_api),
          client_secret = client_secret (the_credentials example_api),
          token = token (the_credentials example_api), auth_key = JStr ''new'',
          auth_type = JStr ''bearer'', auth_scope = JStr ''organizer:result'',
          auth_expiry = strftime (clock (respect_rate_limits example_api) + int (latency grant_answer)
                                    + (3600 - 10) * 1000000)\<rparr>"
    by blast
  have cr: "the_credentials example_api = example_credentials" "trace example_api = []"
    by (simp_all add: example_api_def)
  have cf: "credential_file s' = \<lparr>client_id = JStr ''id'', client_secret = JStr ''secret'', token = JStr ''key'',
              auth_key = JStr ''new'', auth_type = JStr ''bearer'', auth_scope = JStr ''organizer:result'',
              auth_expiry = ''03.11.2026, 15:37:57''\<rparr>"
    unfolding s'(4) ev cr by (simp add: example_credentials_def strftime_examples)
  have tc: "the_credentials s'
       = \<lparr>client_id = JStr ''id'', client_secret = JStr ''secret'', token = JStr ''key'',
          auth_key = JStr ''new'', auth_type = JStr ''bearer'', auth_scope = JStr ''organizer:result'',
          auth_expiry = 63929317077373456\<rparr>"
    unfolding s'(3) ev cr by (simp add: example_credentials_def)
  have tr: "trace s'
       = [Sent
            \<lparr>req_method = POST, req_url = ''https://api.toornament.com/oauth/v2/token'',
              req_headers = [(''Content-Type'', JStr ''application/x-www-form-urlencoded''),
                             (''X-Api-Key'', JStr ''key'')],
              req_data = Some [(''grant_type'', JStr ''client_credentials''),
                               (''scope'', JStr ''organizer:participant organizer:result''),
                               (''client_id'', JStr ''id''),
                               (''client_secret'', JStr ''secret'')]\<rparr>
            63929313487123456,
          Saved
            \<lparr>client_id = JStr ''id'', client_secret = JStr ''secret'', token = JStr ''key'',
              auth_key = JStr ''new'', auth_type = JStr ''bearer'', auth_scope = JStr ''organizer:result'',
              auth_expiry = ''03.11.2026, 15:37:57''\<rparr>]"
    unfolding s'(2) cf c0 cr by (simp add: example_credentials_def)
  show ?thesis
    using nf ex 1 k s'(1) tr tc cf by simp
qed

section \<open>The API client: the expiry in the credential file\<close>

lemma update_api_credentials_Inr:
  assumes "update_api_credentials resp s = (Inr (), s')"
  shows "\<exists>tok ty sc n e. add_seconds (clock s) (n - 10) = Inr e
           \<and> the_credentials s'
               = (the_credentials s)\<lparr>auth_key := tok, auth_type := ty, auth_scope := sc, auth_expiry := e\<rparr>
           \<and> credential_file s'
               = \<lparr>client_id = client_id (the_credentials s), client_secret = client_secret (the_credentials s),
                  token = token (the_credentials s), auth_key = tok, auth_type = ty, auth_scope = sc,
                  auth_expiry = strftime e\<rparr>"
proof -
  from assms obtain tok where 1: "json_getitem resp ''access_token'' = Inr tok"
    by (cases "json_getitem resp ''access_token''") (simp_all add: update_api_credentials_def)
  from assms 1 obtain ty where 2: "json_getitem resp ''token_type'' = Inr ty"
    by (cases "json_getitem resp ''token_type''") (simp_all add: update_api_credentials_def Let_def)
  from assms 1 2 obtain sc where 3: "json_getitem resp ''scope'' = Inr sc"
    by (cases "json_getitem resp ''scope''") (simp_all add: update_api_credentials_def Let_def)
  from assms 1 2 3 obtain x where 4: "json_getitem resp ''expires_in'' = Inr x"
    by (cases "json_getitem resp ''expires_in''") (simp_all add: update_api_credentials_def Let_def)
  from assms 1 2 3 4 obtain n where 5: "json_int x = Some n"
    by (cases "json_int x") (simp_all add: update_api_credentials_def Let_def)
  from assms 1 2 3 4 5 obtain e where 6: "add_seconds (clock s) (n - 10) = Inr e"
    by (cases "add_seconds (clock s) (n - 10)") (simp_all add: update_api_credentials_def Let_def)
  from update_api_credentials_grant [OF 1 2 3 4 5 6] assms
  have "s' = s\<lparr>credential_file :=
                 \<lparr>client_id = client_id (the_credentials s), client_secret = client_secret (the_credentials s),
                  token = token (the_credentials s), auth_key = tok, auth_type = ty, auth_scope = sc,
                  auth_expiry = strftime e\<rparr>,
               trace := trace s @ [Saved
                 \<lparr>client_id = client_id (the_credentials s), client_secret = client_secret (the_credentials s),
                  token = token (the_credentials s), auth_key = tok, auth_type = ty, auth_scope = sc,
                  auth_expiry = strftime e\<rparr>],
               the_credentials :=
                 (the_credentials s)\<lparr>auth_key := tok, auth_type := ty, auth_scope := sc, auth_expiry := e\<rparr>\<rparr>"
    by simp
  with 6 show ?thesis by auto
qed


text \<open>
  Claim C7. After a refresh has written the credentials, loading the file gives the same
  credentials with the expiry cut to the whole second: the loaded expiry and the expiry
  in memory agree down to the second, and differ by the microseconds the text does not
  hold. A client that holds the loaded credentials counts the token as expired exactly
  when the loaded expiry is less than 60 seconds after the clock. The property is
  stated for expiries from the year 1000 on, where \<open>%Y\<close> writes four digits on every
  platform.
\<close>

theorem expiry_round_trip:
  assumes "update_api_credentials resp s = (Inr (), s')"
    and "1000 \<le> year (civil_of (auth_expiry (the_credentials s')))"
  shows "\<exists>c. load_api_credentials (credential_file s') = Inr c
           \<and> auth_expiry c = auth_expiry (the_credentials s') - auth_expiry (the_credentials s') mod 1000000
           \<and> auth_expiry c div 1000000 = auth_expiry (the_credentials s') div 1000000
           \<and> auth_expiry c mod 1000000 = 0
           \<and> c\<lparr>auth_expiry := auth_expiry (the_credentials s')\<rparr> = the_credentials s'
           \<and> has_api_token_expired (s'\<lparr>the_credentials := c, clock := now\<rparr>)
               = (auth_expiry c < now + 60000000)"
proof -
  from update_api_credentials_Inr [OF assms(1)]
  obtain tok ty sc n e where a: "add_seconds (clock s) (n - 10) = Inr e"
    and c: "the_credentials s'
               = (the_credentials s)\<lparr>auth_key := tok, auth_type := ty, auth_scope := sc, auth_expiry := e\<rparr>"
    and f: "credential_file s'
               = \<lparr>client_id = client_id (the_credentials s), client_secret = client_secret (the_credentials s),
                  token = token (the_credentials s), auth_key = tok, auth_type = ty, auth_scope = sc,
                  auth_expiry = strftime e\<rparr>"
    by blast
  from add_seconds_Inr [OF a] have r: "0 \<le> e" "e < max_datetime" by simp_all
  have p: "strptime (strftime e) = Inr (e - e mod 1000000)" using r by (rule strptime_strftime)
  have d: "(e - e mod 1000000) div 1000000 = e div 1000000"
    by (simp add: minus_mod_eq_mult_div)
  have m: "(e - e mod 1000000) mod 1000000 = 0"
    by (simp add: minus_mod_eq_mult_div)
  show ?thesis
    unfolding f load_api_credentials_def
    by (simp add: p c d m has_api_token_expired_def)
qed

lemma update_example:
  "update_api_credentials (body grant_answer) example_api
     = (Inr (), snd (update_api_credentials (body grant_answer) example_api))"
  "auth_expiry (the_credentials (snd (update_api_credentials (body grant_answer) example_api)))
     = 63929317077123456"
proof -
  have a: "add_seconds (clock example_api) (3600 - 10) = Inr 63929317077123456"
    by (simp add: add_seconds_def example_api_def max_datetime_def)
  have ji: "json_int (JInt 3600) = Some 3600" by (simp add: json_int_def)
  note u = update_api_credentials_grant [OF grant_items ji a]
  show "update_api_credentials (body grant_answer) example_api
     = (Inr (), snd (update_api_credentials (body grant_answer) example_api))"
    by (simp add: u)
  show "auth_expiry (the_credentials (snd (update_api_credentials (body grant_answer) example_api)))
     = 63929317077123456"
    by (simp add: u)
qed

theorem expiry_round_trip_witness:
  "fst (update_api_credentials (body grant_answer) example_api) = Inr ()
   \<and> auth_expiry (the_credentials (snd (update_api_credentials (body grant_answer) example_api)))
       = 63929317077123456
   \<and> year (civil_of 63929317077123456) = 2026
   \<and> map_sum id auth_expiry
        (load_api_credentials (credential_file (snd (update_api_credentials (body grant_answer) example_api))))
       = Inr 63929317077000000"
proof -
  have y: "year (civil_of 63929317077123456) = 2026" by (simp add: civil_of_example)
  then have y': "1000 \<le> year (civil_of (auth_expiry (the_credentials
      (snd (update_api_credentials (body grant_answer) example_api)))))"
    by (simp add: update_example(2))
  from expiry_round_trip [OF update_example(1) y']
  obtain c where "load_api_credentials (credential_file
        (snd (update_api_credentials (body grant_answer) example_api))) = Inr c"
    and "auth_expiry c = auth_expiry (the_credentials (snd (update_api_credentials (body grant_answer) example_api)))
           - auth_expiry (the_credentials (snd (update_api_credentials (body grant_answer) example_api)))
             mod 1000000"
    by blast
  then have "map_sum id auth_expiry
        (load_api_credentials (credential_file (snd (update_api_credentials (body grant_answer) example_api))))
       = Inr 63929317077000000"
    by (simp add: update_example(2))
  moreover have "fst (update_api_credentials (body grant_answer) example_api) = Inr ()"
    using update_example(1) by (metis fst_conv)
  ultimately show ?thesis using y update_example(2) by simp
qed

end
